theory Spec2Isabelle
  imports Main
begin

section \<open>Bytes and whitespace\<close>

text \<open>
  A Go \<^verbatim>\<open>[]byte\<close> and a Go \<^verbatim>\<open>string\<close> are both modelled as \<^typ>\<open>string\<close>,
  a list of 8-bit characters. A nil slice is the empty list.
\<close>

definition nl :: char where
  "nl = CHR 0x0A"

text \<open>
  \<^verbatim>\<open>unicode.IsSpace(rune(v))\<close> for a byte \<^verbatim>\<open>v\<close>: the rune is in the Latin-1 range, where
  the white space characters are tab, line feed, vertical tab, form feed, carriage return,
  space, U+0085 and U+00A0.
\<close>

definition isSpace :: "char \<Rightarrow> bool" where
  "isSpace v = (v \<in> set [CHR 0x09, CHR 0x0A, CHR 0x0B, CHR 0x0C, CHR 0x0D, CHR 0x20, CHR 0x85, CHR 0xA0])"

text \<open>A run-time panic of the Go program.\<close>

datatype panic = IndexOutOfRange | InvalidBlockType

text \<open>\<^verbatim>\<open>xs[i]\<close>: the read panics when the index is not below the length.\<close>

definition byteAt :: "string \<Rightarrow> nat \<Rightarrow> panic + char" where
  "byteAt xs i = (if i < length xs then Inr (xs ! i) else Inl IndexOutOfRange)"

text \<open>
  \<^verbatim>\<open>xs[lo:hi]\<close>. Every slice expression of the modelled code is taken right after a
  successful read or match, with \<open>lo \<le> hi \<le> length xs\<close>.
\<close>

definition slice :: "string \<Rightarrow> nat \<Rightarrow> nat \<Rightarrow> string" where
  "slice xs lo hi = take (hi - lo) (drop lo xs)"

section \<open>The lexer\<close>

text \<open>
  Modelled from the spec: the declaration of \<^verbatim>\<open>lexer\<close> is not among the source files.
  The state is the byte buffer and the cursor offset; the block rules read them as
  \<^verbatim>\<open>l.data\<close> and \<^verbatim>\<open>l.pos\<close>. The offset only grows, but for the one step back at the end
  of \<^verbatim>\<open>endSComments\<close>, which follows a read: it is a natural number.
\<close>

record lexer =
  data :: string
  pos :: nat

text \<open>
  Modelled from the spec: the methods \<^verbatim>\<open>atEOF\<close>, \<^verbatim>\<open>match\<close> and \<^verbatim>\<open>skipSpace\<close> of the
  lexer are not among the source files. The cursor is at the end when it is not below the
  buffer length.
\<close>

definition atEOF :: "lexer \<Rightarrow> bool" where
  "atEOF l = (length (data l) \<le> pos l)"

text \<open>The bytes of the buffer at offset \<open>p\<close> equal the token.\<close>

definition matchesAt :: "string \<Rightarrow> string \<Rightarrow> nat \<Rightarrow> bool" where
  "matchesAt tok xs p = (take (length tok) (drop p xs) = tok)"

text \<open>
  Modelled from the spec: \<^verbatim>\<open>match(token)\<close>. If the bytes at the cursor equal the token the
  cursor moves past it and the result is true; otherwise the cursor stays and the result is
  false.
\<close>

definition match :: "lexer \<Rightarrow> string \<Rightarrow> bool \<times> lexer" where
  "match l tok =
     (if matchesAt tok (data l) (pos l) then (True, l\<lparr>pos := pos l + length tok\<rparr>)
      else (False, l))"

text \<open>
  Modelled from the spec: \<^verbatim>\<open>skipSpace()\<close> moves the cursor over white space, a newline
  excluded. White space is what \<open>isSpace\<close> says of a byte.
\<close>

definition skipSpace :: "lexer \<Rightarrow> lexer" where
  "skipSpace l =
     l\<lparr>pos := pos l + length (takeWhile (\<lambda>c. isSpace c \<and> c \<noteq> nl) (drop (pos l) (data l)))\<rparr>"

section \<open>Block rules\<close>

text \<open>The three values of \<^verbatim>\<open>block.Type\<close> (an \<^verbatim>\<open>int8\<close>, \<^verbatim>\<open>iota + 1\<close>).\<close>

definition blockTypeString :: int where
  "blockTypeString = 1"

definition blockTypeSComment :: int where
  "blockTypeSComment = 2"

definition blockTypeMComment :: int where
  "blockTypeMComment = 3"

record block =
  Type :: int
  Begin :: string
  End :: string
  Escape :: string

subsection \<open>filterSymbols\<close>

text \<open>
  The \<^verbatim>\<open>for index, v := range line\<close> loop of \<^verbatim>\<open>filterSymbols\<close>. The third argument is
  \<^verbatim>\<open>line[index:]\<close>, so that its tail is \<^verbatim>\<open>line[index+1:]\<close> and
  \<^verbatim>\<open>len(line) > index+1\<close> says that the tail is not empty.
\<close>

fun filterLoop :: "string \<Rightarrow> string \<Rightarrow> string \<Rightarrow> string" where
  "filterLoop line charset [] = line"
| "filterLoop line charset (v # rest) =
     (if isSpace v \<and> v \<noteq> nl then filterLoop line charset rest
      else if v \<notin> set charset then line
      else if rest \<noteq> [] \<and> isSpace (hd rest) then
        (if hd rest = nl then [nl] else rest)
      else line)"

definition filterSymbols :: "string \<Rightarrow> string \<Rightarrow> string" where
  "filterSymbols line charset =
     (if length charset = 0 then line else filterLoop line charset line)"

subsection \<open>BeginFunc\<close>

definition BeginFunc :: "block \<Rightarrow> lexer \<Rightarrow> bool \<times> lexer" where
  "BeginFunc b l = match l (Begin b)"

subsection \<open>endString\<close>

text \<open>
  The result is \<^verbatim>\<open>(lines, ok)\<close> together with the lexer, whose cursor the call moves.
  The second case of the \<^verbatim>\<open>switch\<close> calls \<^verbatim>\<open>match\<close> only when \<^verbatim>\<open>Escape\<close> is not empty.
\<close>

function endString :: "block \<Rightarrow> lexer \<Rightarrow> string list \<times> bool \<times> lexer" where
  "endString b l =
     (if atEOF l then ([], False, l)
      else
        (case (if length (Escape b) > 0 then match l (Escape b) else (False, l)) of
           (True, l1) \<Rightarrow> endString b (l1\<lparr>pos := pos l1 + 1\<rparr>)
         | (False, l1) \<Rightarrow>
             (case match l1 (End b) of
                (True, l2) \<Rightarrow> ([], True, l2)
              | (False, l2) \<Rightarrow> endString b (l2\<lparr>pos := pos l2 + 1\<rparr>))))"
  by pat_completeness auto
termination
  by (relation "measure (\<lambda>(b, l). length (data l) - pos l)")
     (auto simp: atEOF_def match_def split: if_splits)

text \<open>
  The scan of a string in the words of the spec, as a relation between offsets of the
  buffer \<open>d\<close>: \<open>scans b d p q\<close> says that the scan which starts at \<open>p\<close> passes \<open>q\<close>. At an
  offset inside the buffer an Escape match leads to the offset behind the token and one
  more byte; a byte at which neither the Escape token nor the End token matches leads to
  the next offset. The scan goes no further from the end of the buffer and from an End
  token that is not taken as an escape.
\<close>

inductive scans :: "block \<Rightarrow> string \<Rightarrow> nat \<Rightarrow> nat \<Rightarrow> bool" for b :: block and d :: string where
  here: "scans b d p p"
| escaped: "p < length d \<Longrightarrow> Escape b \<noteq> [] \<Longrightarrow> matchesAt (Escape b) d p \<Longrightarrow>
     scans b d (p + length (Escape b) + 1) q \<Longrightarrow> scans b d p q"
| ordinary: "p < length d \<Longrightarrow> \<not> (Escape b \<noteq> [] \<and> matchesAt (Escape b) d p) \<Longrightarrow>
     \<not> matchesAt (End b) d p \<Longrightarrow> scans b d (p + 1) q \<Longrightarrow> scans b d p q"

code_pred scans .

subsection \<open>endMComments\<close>

function mLoop :: "block \<Rightarrow> lexer \<Rightarrow> string list \<Rightarrow> nat \<Rightarrow> panic + (string list \<times> bool \<times> lexer)" where
  "mLoop b l lines start =
     (if atEOF l then Inr ([], False, l)
      else
        (case match l (End b) of
           (True, l1) \<Rightarrow>
             (let p = pos l1 - length (End b) in
                Inr (if p > start
                     then lines @ [filterSymbols (slice (data l1) start p) (Escape b)]
                     else lines,
                     True, l1))
         | (False, l1) \<Rightarrow>
             (case byteAt (data l1) (pos l1) of
                Inl e \<Rightarrow> Inl e
              | Inr r \<Rightarrow>
                  (let l2 = l1\<lparr>pos := pos l1 + 1\<rparr> in
                     if r = nl
                     then mLoop b l2
                            (lines @ [filterSymbols (slice (data l2) start (pos l2)) (Escape b)])
                            (pos l2)
                     else mLoop b l2 lines start))))"
  by pat_completeness auto
termination
  by (relation "measure (\<lambda>(b, l, lines, start). length (data l) - pos l)")
     (auto simp: atEOF_def match_def split: if_splits)

definition endMComments :: "block \<Rightarrow> lexer \<Rightarrow> panic + (string list \<times> bool \<times> lexer)" where
  "endMComments b l = mLoop b l [] (pos l)"

subsection \<open>endSComments\<close>

text \<open>
  The inner loop, which reads one line. It yields the line to append, whether the loop
  left by \<^verbatim>\<open>break LOOP\<close> (the end of the buffer was reached), and the lexer.
\<close>

function sLine :: "block \<Rightarrow> lexer \<Rightarrow> nat \<Rightarrow> panic + (string \<times> bool \<times> lexer)" where
  "sLine b l start =
     (case byteAt (data l) (pos l) of
        Inl e \<Rightarrow> Inl e
      | Inr r \<Rightarrow>
          (let l1 = l\<lparr>pos := pos l + 1\<rparr> in
             if atEOF l1 then Inr (slice (data l1) start (pos l1), True, l1)
             else if r = nl
             then Inr (filterSymbols (slice (data l1) start (pos l1)) (Escape b), False, l1)
             else sLine b l1 start))"
  by pat_completeness auto
termination
  by (relation "measure (\<lambda>(b, l, start). length (data l) - pos l)")
     (auto simp: atEOF_def byteAt_def split: if_splits)

declare endString.simps [simp del] mLoop.simps [simp del] sLine.simps [simp del]

text \<open>
  A successful read of a line leaves the buffer alone and moves the cursor forward, at
  most to the end of the buffer; the outer loop terminates by this.
\<close>

lemma sLine_adv:
  "sLine b l s = Inr (ln, brk, l1) \<Longrightarrow>
     data l1 = data l \<and> pos l < pos l1 \<and> pos l1 \<le> length (data l)"
proof (induction b l s rule: sLine.induct)
  case (1 b l start)
  show ?case
  proof (cases "byteAt (data l) (pos l)")
    case (Inl e)
    with "1.prems" show ?thesis by (simp add: sLine.simps[of b l start])
  next
    case (Inr r)
    then have lt: "pos l < length (data l)" by (simp add: byteAt_def split: if_splits)
    show ?thesis
    proof (cases "atEOF (l\<lparr>pos := pos l + 1\<rparr>) \<or> r = nl")
      case True
      with "1.prems" Inr lt show ?thesis
        by (auto simp: sLine.simps[of b l start] Let_def split: if_splits)
    next
      case False
      with "1.prems" Inr have "sLine b (l\<lparr>pos := pos l + 1\<rparr>) start = Inr (ln, brk, l1)"
        by (simp add: sLine.simps[of b l start] Let_def)
      from "1.IH"[OF Inr refl _ _ this] False show ?thesis by auto
    qed
  qed
qed

text \<open>
  The outer loop (\<^verbatim>\<open>LOOP\<close>): read a line, skip white space, and go on when
  \<^verbatim>\<open>Begin\<close> matches again.
\<close>

function sLoop :: "block \<Rightarrow> lexer \<Rightarrow> string list \<Rightarrow> panic + (string list \<times> lexer)" where
  "sLoop b l lines =
     (case sLine b l (pos l) of
        Inl e \<Rightarrow> Inl e
      | Inr (line, brk, l1) \<Rightarrow>
          if brk then Inr (lines @ [line], l1)
          else
            (case match (skipSpace l1) (Begin b) of
               (False, l2) \<Rightarrow> Inr (lines @ [line], l2)
             | (True, l2) \<Rightarrow> sLoop b l2 (lines @ [line])))"
  by pat_completeness auto
termination
  by (relation "measure (\<lambda>(b, l, lines). length (data l) - pos l)")
     (auto dest!: sLine_adv simp: match_def skipSpace_def split: if_splits)

declare sLoop.simps [simp del]

definition endSComments :: "block \<Rightarrow> lexer \<Rightarrow> panic + (string list \<times> bool \<times> lexer)" where
  "endSComments b l =
     (case sLoop b l [] of
        Inl e \<Rightarrow> Inl e
      | Inr (lines, l1) \<Rightarrow>
          Inr (lines, True, if length lines > 0 then l1\<lparr>pos := pos l1 - 1\<rparr> else l1))"

subsection \<open>EndFunc\<close>

definition EndFunc :: "block \<Rightarrow> lexer \<Rightarrow> panic + (string list \<times> bool \<times> lexer)" where
  "EndFunc b l =
     (if Type b = blockTypeString then Inr (endString b l)
      else if Type b = blockTypeMComment then endMComments b l
      else if Type b = blockTypeSComment then endSComments b l
      else Inl InvalidBlockType)"

section \<open>Messages\<close>

text \<open>
  The keys of the locale table that name an error.
\<close>

datatype locale_key =
  ErrRequired | ErrMustEmpty | ErrInvalidFormat | ErrDirNotExists | ErrUnsupportedInputLang
  | ErrNotFoundEndFlag | ErrNotFoundSupportedLang | ErrUnknownTag | ErrDirIsEmpty
  | ErrInvalidValue | ErrPathNotMatchParams | ErrDuplicateValue

text \<open>
  Modelled from the spec: the package \<^verbatim>\<open>message\<close> is not among the source files. A
  \<^verbatim>\<open>SyntaxError\<close> is the record of file, field path, line and message that
  \<^verbatim>\<open>message.NewError(file, field, line, key)\<close> builds.
\<close>

datatype SyntaxError = NewError (err_File: string) (Field: string) (err_Line: int) (Message: locale_key)

text \<open>\<^verbatim>\<open>err.Field = s\<close>.\<close>

fun set_Field :: "SyntaxError \<Rightarrow> string \<Rightarrow> SyntaxError" where
  "set_Field (NewError file field line key) s = NewError file s line key"

text \<open>
  Modelled from the spec: the handler of the package \<^verbatim>\<open>message\<close>, the sink to which the
  errors are reported, is not among the source files. It is modelled by the
  list of the calls \<^verbatim>\<open>h.Error(typ, err)\<close> made on it, the latest last; the error of a call
  is the value \<^verbatim>\<open>message.WithError(file, field, line, err)\<close>, whose last argument is
  \<open>None\<close> for a nil \<^verbatim>\<open>error\<close>.
\<close>

datatype msg_type = Erro | Warn | Info | Succ

datatype 'e report = WithError string string int "'e option"

type_synonym 'e Handler = "(msg_type \<times> 'e report) list"

definition Handler_Error :: "'e Handler \<Rightarrow> msg_type \<Rightarrow> 'e report \<Rightarrow> 'e Handler" where
  "Handler_Error h t err = h @ [(t, err)]"

section \<open>Package input\<close>

record input_block =
  File :: string
  Line :: int
  Data :: string

definition apidocBegin :: string where
  "apidocBegin = ''<apidoc''"

definition apiBegin :: string where
  "apiBegin = ''<api''"

text \<open>\<^verbatim>\<open>bytes.HasPrefix(s, prefix)\<close>.\<close>

definition HasPrefix :: "string \<Rightarrow> string \<Rightarrow> bool" where
  "HasPrefix s prefix = (take (length prefix) s = prefix)"

subsection \<open>parseBlock\<close>

text \<open>
  \<^verbatim>\<open>d.FromXML(data)\<close> and \<^verbatim>\<open>d.NewAPI(file, line).FromXML(data)\<close> belong to the package
  \<^verbatim>\<open>doc\<close> and are parameters here: each yields the document after the call and the
  error it returned. The call of \<^verbatim>\<open>h.Error\<close> is the last statement of the function and
  stands under no condition.
\<close>

definition parseBlock ::
  "('d \<Rightarrow> string \<Rightarrow> 'd \<times> 'e option) \<Rightarrow> ('d \<Rightarrow> string \<Rightarrow> int \<Rightarrow> string \<Rightarrow> 'd \<times> 'e option) \<Rightarrow>
   'd \<Rightarrow> input_block \<Rightarrow> 'e Handler \<Rightarrow> 'd \<times> 'e Handler" where
  "parseBlock FromXML NewAPI_FromXML d blk h =
     (let (d', err) =
            (if HasPrefix (Data blk) apidocBegin then FromXML d (Data blk)
             else if HasPrefix (Data blk) apiBegin
             then NewAPI_FromXML d (File blk) (Line blk) (Data blk)
             else (d, None))
      in (d', Handler_Error h Erro (WithError (File blk) [] (Line blk) err)))"

subsection \<open>buildBlock and the gate of Parse\<close>

text \<open>\<^verbatim>\<open>strconv.Itoa\<close> on an index, which is never negative.\<close>

definition digit :: "nat \<Rightarrow> char" where
  "digit d = ''0123456789'' ! d"

fun Itoa :: "nat \<Rightarrow> string" where
  "Itoa n = (if n < 10 then [digit n] else Itoa (n div 10) @ [digit (n mod 10)])"

declare Itoa.simps [simp del]

text \<open>
  The \<^verbatim>\<open>for index, item := range opt\<close> loop of \<^verbatim>\<open>buildBlock\<close>. An option is a pointer:
  \<open>None\<close> is nil. \<^verbatim>\<open>Options.Sanitize\<close> is not among the source files and is a
  parameter.
\<close>

fun checkOpts :: "('o \<Rightarrow> SyntaxError option) \<Rightarrow> 'o option list \<Rightarrow> nat \<Rightarrow> SyntaxError option" where
  "checkOpts Sanitize [] index = None"
| "checkOpts Sanitize (item # rest) index =
     (let field = ''opt['' @ Itoa index @ '']'' in
        case item of
          None \<Rightarrow> Some (NewError [] field 0 ErrRequired)
        | Some opt \<Rightarrow>
            (case Sanitize opt of
               Some err \<Rightarrow> Some (set_Field err (field @ ''.'' @ Field err))
             | None \<Rightarrow> checkOpts Sanitize rest (index + 1)))"

text \<open>
  What the run time has been asked to do so far: \<^verbatim>\<open>make(chan block, n)\<close> and the
  \<^verbatim>\<open>go\<close> statement that starts the scan of the options. The scan itself runs
  concurrently and is not modelled.
\<close>

datatype 'o event = MakeChan nat | GoScan "'o option list"

definition buildBlock ::
  "('o \<Rightarrow> SyntaxError option) \<Rightarrow> 'o option list \<Rightarrow> 'o event list \<Rightarrow>
   (SyntaxError + 'o option list) \<times> 'o event list" where
  "buildBlock Sanitize opt evs =
     (if length opt = 0 then (Inl (NewError [] ''opt'' 0 ErrRequired), evs)
      else
        (case checkOpts Sanitize opt 0 of
           Some err \<Rightarrow> (Inl err, evs)
         | None \<Rightarrow> (Inr opt, evs @ [MakeChan 500, GoScan opt])))"

text \<open>
  \<^verbatim>\<open>Parse\<close> up to the return on an error of \<^verbatim>\<open>buildBlock\<close>. What follows, the
  concurrent processing of the blocks, is the parameter \<open>pipeline\<close>.
\<close>

definition Parse ::
  "('o \<Rightarrow> SyntaxError option) \<Rightarrow> ('o option list \<Rightarrow> 'd) \<Rightarrow> 'o option list \<Rightarrow> 'o event list \<Rightarrow>
   (SyntaxError + 'd) \<times> 'o event list" where
  "Parse Sanitize pipeline opt evs =
     (case buildBlock Sanitize opt evs of
        (Inl err, evs') \<Rightarrow> (Inl err, evs')
      | (Inr blocks, evs') \<Rightarrow> (Inr (pipeline blocks), evs'))"

section \<open>Package doc\<close>

text \<open>
  Modelled from the spec: the declarations of \<^verbatim>\<open>Type\<close>, \<^verbatim>\<open>Enum\<close> and \<^verbatim>\<open>Param\<close> are not
  among the source files. They have the values and the fields that the spec lists and the
  source files use; \<^verbatim>\<open>None\<close> is \<open>None_Type\<close> here. \<^verbatim>\<open>Request\<close> and \<^verbatim>\<open>Callback\<close> are
  those of the source files, with \<^verbatim>\<open>Version\<close>, \<^verbatim>\<open>Method\<close> and \<^verbatim>\<open>Status\<close> as the string
  and integer types they are, and \<^verbatim>\<open>Example\<close> and \<^verbatim>\<open>Header\<close> left unspecified. A field
  whose name occurs in several structs carries the name of its struct in front.
\<close>

datatype Type = None_Type | Bool | Number | String | Object

record Enum =
  Value :: string

datatype Param =
  Param (Name: string) (Param_Type: Type) (Param_Array: bool) (Param_Items: "Param list")
    (Param_Enums: "Enum list")

typedecl Example

typedecl Header

record Request =
  Request_Type :: Type
  Request_Deprecated :: string
  Request_Enums :: "Enum list"
  Request_Array :: bool
  Request_Items :: "Param list"
  Request_Reference :: string
  Request_Summary :: string
  Status :: int
  Mimetype :: string
  Examples :: "Example list"
  Headers :: "Header list"
  Request_Description :: string

record Callback =
  Schema :: string
  Callback_Summary :: string
  Callback_Description :: string
  Method :: string
  Queries :: "Param list"
  Callback_Deprecated :: string
  Callback_Reference :: string
  Responses :: "Request list"
  Requests :: "Request list"

text \<open>
  Modelled from the spec: the constructors of the errors of the package are not among the
  source files. An error is the value \<^verbatim>\<open>newSyntaxError(field, key)\<close> or the value
  \<^verbatim>\<open>fixedSyntaxError(err, file, field, line)\<close>, which wraps the error of the XML decoder.
\<close>

datatype 'e doc_error = newSyntaxError string locale_key | fixedSyntaxError 'e string string int

subsection \<open>Duplicates\<close>

text \<open>
  Modelled from the spec: \<^verbatim>\<open>getDuplicateEnum\<close> and \<^verbatim>\<open>getDuplicateItems\<close> are not among
  the source files. Their caller takes a string from them and reads the empty string as
  "no duplicate"; the spec says that duplicate enum values and duplicate sibling names are
  rejected. Each yields a value that occurs more than once, the first such in the order of
  declaration, and the empty string when there is none.
\<close>

fun getDuplicate :: "string list \<Rightarrow> string" where
  "getDuplicate [] = []"
| "getDuplicate (x # xs) = (if x \<in> set xs then x else getDuplicate xs)"

text \<open>
  Modelled from the spec: the duplicate among the values of the enums, and the duplicate
  among the names of the items.
\<close>

definition getDuplicateEnum :: "Enum list \<Rightarrow> string" where
  "getDuplicateEnum enums = getDuplicate (map Value enums)"

definition getDuplicateItems :: "Param list \<Rightarrow> string" where
  "getDuplicateItems items = getDuplicate (map Name items)"

subsection \<open>Request.UnmarshalXML\<close>

text \<open>
  \<^verbatim>\<open>d.DecodeElement(&shadow, &start)\<close> belongs to \<^verbatim>\<open>encoding/xml\<close>: its outcome, the
  decoded value and the error, is an argument, and \<open>local\<close> is \<^verbatim>\<open>start.Name.Local\<close>.
  The result is the error returned and the value of \<^verbatim>\<open>*r\<close> after the call.
\<close>

definition Request_UnmarshalXML ::
  "Request \<Rightarrow> string \<Rightarrow> Request \<times> 'e option \<Rightarrow> 'e doc_error option \<times> Request" where
  "Request_UnmarshalXML r local decoded =
     (let field = ''/'' @ local; shadow = fst decoded in
        case snd decoded of
          Some err \<Rightarrow> (Some (fixedSyntaxError err [] field 0), r)
        | None \<Rightarrow>
            if Request_Type shadow = None_Type
            then (Some (newSyntaxError (field @ ''#type'') ErrRequired), r)
            else if Request_Type shadow = Object \<and> length (Request_Items shadow) = 0
            then (Some (newSyntaxError (field @ ''/item'') ErrRequired), r)
            else if Mimetype shadow = []
            then (Some (newSyntaxError (field @ ''#mimetype'') ErrRequired), r)
            else if getDuplicateEnum (Request_Enums shadow) \<noteq> []
            then (Some (newSyntaxError (field @ ''/enum'') ErrDuplicateValue), r)
            else if getDuplicateItems (Request_Items shadow) \<noteq> []
            then (Some (newSyntaxError (field @ ''/item'') ErrDuplicateValue), r)
            else (None, shadow))"

subsection \<open>Callback.UnmarshalXML\<close>

definition SchemaHTTP :: string where
  "SchemaHTTP = ''HTTP''"

definition SchemaHTTPS :: string where
  "SchemaHTTPS = ''HTTPS''"

text \<open>
  Here the decoder writes into \<^verbatim>\<open>*c\<close> itself (\<^verbatim>\<open>shadow\<close> is the same pointer), so the
  value of \<^verbatim>\<open>*c\<close> after the call is the decoded one whatever the checks say.
  \<^verbatim>\<open>strings.ToUpper\<close> is a parameter.
\<close>

definition Callback_UnmarshalXML ::
  "(string \<Rightarrow> string) \<Rightarrow> string \<Rightarrow> Callback \<times> 'e option \<Rightarrow> 'e doc_error option \<times> Callback" where
  "Callback_UnmarshalXML ToUpper local decoded =
     (let field = ''/'' @ local; shadow = fst decoded in
        case snd decoded of
          Some err \<Rightarrow> (Some (fixedSyntaxError err [] field 0), shadow)
        | None \<Rightarrow>
            if Method shadow = []
            then (Some (newSyntaxError (field @ ''#method'') ErrRequired), shadow)
            else
              (let schema = ToUpper (Schema shadow) in
                 if schema \<noteq> SchemaHTTP \<and> schema \<noteq> SchemaHTTPS
                 then (Some (newSyntaxError (field @ ''#schema'') ErrInvalidValue), shadow)
                 else if length (Requests shadow) = 0
                 then (Some (newSyntaxError (field @ ''/request'') ErrRequired), shadow)
                 else (None, shadow)))"

text \<open>\<^verbatim>\<open>strings.ToUpper\<close> on ASCII text: the letters a to z go to A to Z.\<close>

definition upperByte :: "char \<Rightarrow> char" where
  "upperByte c =
     (case map_of (zip ''abcdefghijklmnopqrstuvwxyz'' ''ABCDEFGHIJKLMNOPQRSTUVWXYZ'') c of
        Some u \<Rightarrow> u
      | None \<Rightarrow> c)"

definition ToUpper_ascii :: "string \<Rightarrow> string" where
  "ToUpper_ascii s = map upperByte s"

text \<open>A request of the given type, enums and items, for the examples below.\<close>

definition sample_Request :: "Type \<Rightarrow> Enum list \<Rightarrow> Param list \<Rightarrow> Request" where
  "sample_Request t enums items =
     \<lparr>Request_Type = t, Request_Deprecated = [], Request_Enums = enums, Request_Array = False,
      Request_Items = items, Request_Reference = [], Request_Summary = [], Status = 200,
      Mimetype = ''json'', Examples = [], Headers = [], Request_Description = []\<rparr>"

section \<open>Package mock\<close>

datatype json =
  JNull | JBool bool | JNumber int | JString string | JArray "json list"
  | JObject "(string \<times> json) list"

datatype verror = TypeMismatch "string list" | UnknownField "string list"

text \<open>
  Modelled from the spec: the Item of a Param that a name declares, the first one of that
  name.
\<close>

definition item :: "Param \<Rightarrow> string \<Rightarrow> Param option" where
  "item p name = List.find (\<lambda>i. Name i = name) (Param_Items p)"

subsection \<open>The path lookup\<close>

text \<open>
  Modelled from the spec: \<^verbatim>\<open>jsonValidator.find\<close> is not among the source files, only its
  test is. The path is \<^verbatim>\<open>v.names\<close> and the root is \<^verbatim>\<open>v.param\<close>; \<open>None\<close> is the nil
  result "not found". Each segment names an Item of the Param reached so far, whether that
  Param is an array or not; the test requires the path of the one segment \<^verbatim>\<open>""\<close> to be
  "not found" and the empty and the nil path to yield the root.
\<close>

fun find_Param :: "Param \<Rightarrow> string list \<Rightarrow> Param option" where
  "find_Param p [] = Some p"
| "find_Param p (name # names) =
     (case item p name of None \<Rightarrow> None | Some i \<Rightarrow> find_Param i names)"

subsection \<open>Validation and synthesis\<close>

text \<open>The Param with the Array flag cleared.\<close>

fun clearArray :: "Param \<Rightarrow> Param" where
  "clearArray (Param name t a items enums) = Param name t False items enums"

text \<open>
  Modelled from the spec: \<^verbatim>\<open>validJSON\<close> is not among the source files. The schema and the
  value are walked together. A Param with the Array flag requires an array, each element
  of which must satisfy the Param with the flag cleared; an Object requires an object, each
  field of which must name a declared Item and satisfy it; a declared Item may be missing.
  The result is the first error, \<open>None\<close> when the value is valid.
\<close>

fun validate :: "Param \<Rightarrow> string list \<Rightarrow> json \<Rightarrow> verror option"
  and validate_elems :: "Param \<Rightarrow> string list \<Rightarrow> json list \<Rightarrow> verror option"
  and validate_fields :: "Param \<Rightarrow> string list \<Rightarrow> (string \<times> json) list \<Rightarrow> verror option" where
  "validate p path v =
     (if Param_Array p then
        (case v of JArray vs \<Rightarrow> validate_elems (clearArray p) path vs
         | _ \<Rightarrow> Some (TypeMismatch path))
      else
        (case Param_Type p of
           None_Type \<Rightarrow> (case v of JNull \<Rightarrow> None | _ \<Rightarrow> Some (TypeMismatch path))
         | Bool \<Rightarrow> (case v of JBool b \<Rightarrow> None | _ \<Rightarrow> Some (TypeMismatch path))
         | Number \<Rightarrow> (case v of JNumber n \<Rightarrow> None | _ \<Rightarrow> Some (TypeMismatch path))
         | String \<Rightarrow> (case v of JString s \<Rightarrow> None | _ \<Rightarrow> Some (TypeMismatch path))
         | Object \<Rightarrow>
             (case v of JObject fs \<Rightarrow> validate_fields p path fs
              | _ \<Rightarrow> Some (TypeMismatch path))))"
| "validate_elems p path [] = None"
| "validate_elems p path (v # vs) =
     (case validate p path v of
        Some err \<Rightarrow> Some err
      | None \<Rightarrow> validate_elems p path vs)"
| "validate_fields p path [] = None"
| "validate_fields p path ((name, v) # fs) =
     (case item p name of
        None \<Rightarrow> Some (UnknownField (path @ [name]))
      | Some i \<Rightarrow>
          (case validate i (path @ [name]) v of
             Some err \<Rightarrow> Some err
           | None \<Rightarrow> validate_fields p path fs))"

text \<open>
  Modelled from the spec: \<^verbatim>\<open>buildJSON\<close> is not among the source files. Each primitive
  type has one fixed literal (those of the test data: \<^verbatim>\<open>null\<close>, \<^verbatim>\<open>true\<close>, \<^verbatim>\<open>1024\<close>,
  \<^verbatim>\<open>"1024"\<close>), an Object has one field for each declared Item, in the order of
  declaration, and an array holds the value five times.
\<close>

fun synthesize :: "Param \<Rightarrow> json" where
  "synthesize (Param name t a items enums) =
     (let v = (case t of
                 None_Type \<Rightarrow> JNull
               | Bool \<Rightarrow> JBool True
               | Number \<Rightarrow> JNumber 1024
               | String \<Rightarrow> JString ''1024''
               | Object \<Rightarrow> JObject (map (\<lambda>i. (Name i, synthesize i)) items))
      in if a then JArray (replicate 5 v) else v)"

text \<open>
  Modelled from the spec: a well-formed Param tree. At every node the names of the Items
  are distinct, and an Object has an Item.
\<close>

fun wf_Param :: "Param \<Rightarrow> bool" where
  "wf_Param (Param name t a items enums) =
     (distinct (map Name items) \<and> (t = Object \<longrightarrow> items \<noteq> []) \<and> list_all wf_Param items)"

subsection \<open>The test data\<close>

text \<open>
  The last entry of \<^verbatim>\<open>jsonTestData\<close> ("Object with array"), as the Param that
  \<^verbatim>\<open>ToParam\<close> makes of it: the root has no name.
\<close>

definition tags_Param :: Param where
  "tags_Param = Param ''tags'' Object True
     [Param ''name'' String False [] [], Param ''id'' Number False [] []] []"

definition group_Param :: Param where
  "group_Param = Param ''group'' Object False
     [Param ''name'' String False [] [], Param ''id'' Number False [] [], tags_Param] []"

definition root_Param :: Param where
  "root_Param = Param [] Object False
     [Param ''name'' String False [] [], Param ''id'' Number False [] [], group_Param] []"

text \<open>
  \<^verbatim>\<open>TestJSONValidator_find\<close>: the assertions of the test, on the tree above.
  \<^verbatim>\<open>a.NotNil(p).Equal(p.Type, t)\<close> is \<open>hasType\<close>.
\<close>

definition hasType :: "Param option \<Rightarrow> Type \<Rightarrow> bool" where
  "hasType r t = (case r of None \<Rightarrow> False | Some p \<Rightarrow> Param_Type p = t)"

definition TestJSONValidator_find :: bool where
  "TestJSONValidator_find =
     (find_Param root_Param [] = Some root_Param \<and>
      find_Param root_Param [[]] = None \<and>
      hasType (find_Param root_Param [''name'']) String \<and>
      find_Param root_Param [''not-exists''] = None \<and>
      hasType (find_Param root_Param [''group'', ''id'']) Number \<and>
      hasType (find_Param root_Param [''group'', ''tags'', ''id'']) Number)"

declare validate.simps(1) [simp del]

section \<open>Properties of the block rules\<close>

subsection \<open>The loops, one step at a time\<close>

lemma endString_unfold:
  "endString b l =
     (if atEOF l then ([], False, l)
      else if Escape b \<noteq> [] \<and> matchesAt (Escape b) (data l) (pos l)
      then endString b (l\<lparr>pos := pos l + length (Escape b) + 1\<rparr>)
      else if matchesAt (End b) (data l) (pos l)
      then ([], True, l\<lparr>pos := pos l + length (End b)\<rparr>)
      else endString b (l\<lparr>pos := pos l + 1\<rparr>))"
  by (subst endString.simps) (simp add: match_def)

lemma mLoop_unfold:
  "mLoop b l lines start =
     (if atEOF l then Inr ([], False, l)
      else if matchesAt (End b) (data l) (pos l)
      then Inr (if pos l > start
                then lines @ [filterSymbols (slice (data l) start (pos l)) (Escape b)]
                else lines,
                True, l\<lparr>pos := pos l + length (End b)\<rparr>)
      else if data l ! pos l = nl
      then mLoop b (l\<lparr>pos := pos l + 1\<rparr>)
             (lines @ [filterSymbols (slice (data l) start (pos l + 1)) (Escape b)]) (pos l + 1)
      else mLoop b (l\<lparr>pos := pos l + 1\<rparr>) lines start)"
  by (subst mLoop.simps) (simp add: match_def byteAt_def atEOF_def Let_def)

lemma endString_no_End:
  "(\<And>p. pos l \<le> p \<Longrightarrow> p < length (data l) \<Longrightarrow> \<not> matchesAt (End b) (data l) p) \<Longrightarrow>
   \<exists>l'. endString b l = ([], False, l')"
proof (induction "length (data l) - pos l" arbitrary: l rule: less_induct)
  case less
  show ?case
  proof (cases "atEOF l")
    case True
    then show ?thesis by (subst endString_unfold) simp
  next
    case False
    then have lt: "pos l < length (data l)" by (simp add: atEOF_def)
    then have nm: "\<not> matchesAt (End b) (data l) (pos l)" using less.prems by simp
    show ?thesis
    proof (cases "Escape b \<noteq> [] \<and> matchesAt (Escape b) (data l) (pos l)")
      case True
      let ?l = "l\<lparr>pos := pos l + length (Escape b) + 1\<rparr>"
      have "\<exists>l'. endString b ?l = ([], False, l')"
        by (rule less.hyps) (use lt less.prems in auto)
      with True False show ?thesis by (subst endString_unfold) simp
    next
      case F2: False
      let ?l = "l\<lparr>pos := pos l + 1\<rparr>"
      have "\<exists>l'. endString b ?l = ([], False, l')"
        by (rule less.hyps) (use lt less.prems in auto)
      with F2 False nm show ?thesis by (subst endString_unfold) auto
    qed
  qed
qed


lemma endString_result:
  "endString b l = (ls, ok, l') \<Longrightarrow>
     ls = [] \<and> data l' = data l \<and>
     (ok \<longrightarrow> pos l + length (End b) \<le> pos l' \<and>
        matchesAt (End b) (data l) (pos l' - length (End b)))"
proof (induction "length (data l) - pos l" arbitrary: l rule: less_induct)
  case less
  show ?case
  proof (cases "atEOF l")
    case True
    with less.prems show ?thesis by (subst (asm) endString_unfold) auto
  next
    case False
    then have lt: "pos l < length (data l)" by (simp add: atEOF_def)
    show ?thesis
    proof (cases "Escape b \<noteq> [] \<and> matchesAt (Escape b) (data l) (pos l)")
      case True
      let ?l = "l\<lparr>pos := pos l + length (Escape b) + 1\<rparr>"
      from less.prems True False have "endString b ?l = (ls, ok, l')"
        by (subst (asm) endString_unfold) simp
      moreover have "length (data ?l) - pos ?l < length (data l) - pos l" using lt by simp
      ultimately show ?thesis using less.hyps[of ?l] by auto
    next
      case F2: False
      show ?thesis
      proof (cases "matchesAt (End b) (data l) (pos l)")
        case True
        with less.prems F2 False show ?thesis
          by (subst (asm) endString_unfold) auto
      next
        case F3: False
        let ?l = "l\<lparr>pos := pos l + 1\<rparr>"
        from less.prems F3 F2 False have "endString b ?l = (ls, ok, l')"
          by (subst (asm) endString_unfold) auto
        moreover have "length (data ?l) - pos ?l < length (data l) - pos l" using lt by simp
      ultimately show ?thesis using less.hyps[of ?l] by auto
      qed
    qed
  qed
qed

lemma mLoop_no_End:
  "(\<And>p. pos l \<le> p \<Longrightarrow> p < length (data l) \<Longrightarrow> \<not> matchesAt (End b) (data l) p) \<Longrightarrow>
   \<exists>l'. mLoop b l lines start = Inr ([], False, l')"
proof (induction "length (data l) - pos l" arbitrary: l lines start rule: less_induct)
  case less
  show ?case
  proof (cases "atEOF l")
    case True
    then show ?thesis by (subst mLoop_unfold) simp
  next
    case False
    then have lt: "pos l < length (data l)" by (simp add: atEOF_def)
    then have nm: "\<not> matchesAt (End b) (data l) (pos l)" using less.prems by simp
    let ?l = "l\<lparr>pos := pos l + 1\<rparr>"
    have "\<exists>l'. mLoop b ?l lines' start' = Inr ([], False, l')" for lines' start'
      by (rule less.hyps) (use lt less.prems in auto)
    with False nm show ?thesis by (subst mLoop_unfold) auto
  qed
qed

lemma mLoop_result:
  "mLoop b l lines start = r \<Longrightarrow>
     (\<exists>ls ok l'. r = Inr (ls, ok, l') \<and> data l' = data l \<and> (\<not> ok \<longrightarrow> ls = []) \<and>
        (ok \<longrightarrow> pos l + length (End b) \<le> pos l' \<and>
           matchesAt (End b) (data l) (pos l' - length (End b))))"
proof (induction "length (data l) - pos l" arbitrary: l lines start rule: less_induct)
  case less
  show ?case
  proof (cases "atEOF l")
    case True
    with less.prems show ?thesis by (subst (asm) mLoop_unfold) auto
  next
    case False
    then have lt: "pos l < length (data l)" by (simp add: atEOF_def)
    show ?thesis
    proof (cases "matchesAt (End b) (data l) (pos l)")
      case True
      with less.prems False show ?thesis by (subst (asm) mLoop_unfold) auto
    next
      case F2: False
      let ?l = "l\<lparr>pos := pos l + 1\<rparr>"
      from less.prems F2 False obtain lines' start' where "mLoop b ?l lines' start' = r"
        by (subst (asm) mLoop_unfold) (auto split: if_splits)
      moreover have "length (data ?l) - pos ?l < length (data l) - pos l" using lt by simp
      ultimately show ?thesis using less.hyps[of ?l lines' start'] by fastforce
    qed
  qed
qed

lemma scans_endString:
  "scans b d p q \<Longrightarrow> d = data l \<Longrightarrow> p = pos l \<Longrightarrow> endString b l = endString b (l\<lparr>pos := q\<rparr>)"
proof (induction arbitrary: l rule: scans.induct)
  case (here p)
  then show ?case by simp
next
  case (escaped p q)
  let ?l = "l\<lparr>pos := pos l + length (Escape b) + 1\<rparr>"
  from escaped.prems escaped.hyps have "endString b l = endString b ?l"
    by (subst endString_unfold) (simp add: atEOF_def)
  also have "\<dots> = endString b (?l\<lparr>pos := q\<rparr>)"
    by (rule escaped.IH) (use escaped.prems in simp_all)
  finally show ?case by simp
next
  case (ordinary p q)
  let ?l = "l\<lparr>pos := pos l + 1\<rparr>"
  from ordinary.prems ordinary.hyps have "endString b l = endString b ?l"
    by (subst endString_unfold) (auto simp: atEOF_def)
  also have "\<dots> = endString b (?l\<lparr>pos := q\<rparr>)"
    by (rule ordinary.IH) (use ordinary.prems in simp_all)
  finally show ?case by simp
qed

lemma scans_total:
  "\<exists>q. scans b d p q \<and>
     (length d \<le> q \<or> (\<not> (Escape b \<noteq> [] \<and> matchesAt (Escape b) d q) \<and> matchesAt (End b) d q))"
proof (induction "length d - p" arbitrary: p rule: less_induct)
  case less
  show ?case
  proof (cases "length d \<le> p")
    case True
    then show ?thesis using scans.here by blast
  next
    case False
    then have lt: "p < length d" by simp
    show ?thesis
    proof (cases "Escape b \<noteq> [] \<and> matchesAt (Escape b) d p")
      case True
      have "length d - (p + length (Escape b) + 1) < length d - p" using lt by simp
      from less.hyps[OF this] obtain q where
        "scans b d (p + length (Escape b) + 1) q"
        "length d \<le> q \<or> (\<not> (Escape b \<noteq> [] \<and> matchesAt (Escape b) d q) \<and> matchesAt (End b) d q)"
        by blast
      with True lt show ?thesis using scans.escaped by blast
    next
      case F2: False
      show ?thesis
      proof (cases "matchesAt (End b) d p")
        case True
        with F2 show ?thesis using scans.here by blast
      next
        case F3: False
        have "length d - (p + 1) < length d - p" using lt by simp
        from less.hyps[OF this] obtain q where
          "scans b d (p + 1) q"
          "length d \<le> q \<or> (\<not> (Escape b \<noteq> [] \<and> matchesAt (Escape b) d q) \<and> matchesAt (End b) d q)"
          by blast
        with F2 F3 lt show ?thesis using scans.ordinary by blast
      qed
    qed
  qed
qed

lemma endString_at_EOF:
  "scans b (data l) (pos l) q \<Longrightarrow> length (data l) \<le> q \<Longrightarrow>
   endString b l = ([], False, l\<lparr>pos := q\<rparr>)"
proof -
  assume a: "scans b (data l) (pos l) q" "length (data l) \<le> q"
  from scans_endString[OF a(1) refl refl] have "endString b l = endString b (l\<lparr>pos := q\<rparr>)" .
  also have "\<dots> = ([], False, l\<lparr>pos := q\<rparr>)" using a(2) by (subst endString_unfold) (simp add: atEOF_def)
  finally show ?thesis .
qed

lemma endString_at_End:
  "scans b (data l) (pos l) q \<Longrightarrow> q < length (data l) \<Longrightarrow>
   \<not> (Escape b \<noteq> [] \<and> matchesAt (Escape b) (data l) q) \<Longrightarrow> matchesAt (End b) (data l) q \<Longrightarrow>
   endString b l = ([], True, l\<lparr>pos := q + length (End b)\<rparr>)"
proof -
  assume a: "scans b (data l) (pos l) q" "q < length (data l)"
    "\<not> (Escape b \<noteq> [] \<and> matchesAt (Escape b) (data l) q)" "matchesAt (End b) (data l) q"
  from scans_endString[OF a(1) refl refl] have "endString b l = endString b (l\<lparr>pos := q\<rparr>)" .
  also have "\<dots> = ([], True, l\<lparr>pos := q + length (End b)\<rparr>)"
    using a(2,3,4) by (subst endString_unfold) (auto simp: atEOF_def)
  finally show ?thesis .
qed

lemma endString_False_atEOF: "endString b l = (ls, False, l') \<Longrightarrow> atEOF l'"
proof -
  assume r: "endString b l = (ls, False, l')"
  from scans_total[of b "data l" "pos l"] obtain q where
    q: "scans b (data l) (pos l) q"
       "length (data l) \<le> q \<or> (\<not> (Escape b \<noteq> [] \<and> matchesAt (Escape b) (data l) q) \<and> matchesAt (End b) (data l) q)"
    by blast
  show ?thesis
  proof (cases "length (data l) \<le> q")
    case True
    from endString_at_EOF[OF q(1) True] r True show ?thesis by (auto simp: atEOF_def)
  next
    case False
    with q(2) endString_at_End[OF q(1)] r show ?thesis by auto
  qed
qed

lemma mLoop_False_atEOF: "mLoop b l lines start = Inr (ls, False, l') \<Longrightarrow> atEOF l'"
proof (induction "length (data l) - pos l" arbitrary: l lines start rule: less_induct)
  case less
  show ?case
  proof (cases "atEOF l")
    case True
    with less.prems show ?thesis by (subst (asm) mLoop_unfold) auto
  next
    case False
    then have lt: "pos l < length (data l)" by (simp add: atEOF_def)
    let ?l = "l\<lparr>pos := pos l + 1\<rparr>"
    from less.prems False obtain lines' start' where "mLoop b ?l lines' start' = Inr (ls, False, l')"
      by (subst (asm) mLoop_unfold) (auto split: if_splits)
    moreover have "length (data ?l) - pos ?l < length (data l) - pos l" using lt by simp
    ultimately show ?thesis using less.hyps[of ?l lines' start'] by blast
  qed
qed

lemma mLoop_found:
  "pos l \<le> p \<Longrightarrow> p < length (data l) \<Longrightarrow> matchesAt (End b) (data l) p \<Longrightarrow>
   \<exists>ls l'. mLoop b l lines start = Inr (ls, True, l')"
proof (induction "length (data l) - pos l" arbitrary: l lines start rule: less_induct)
  case less
  then have lt: "pos l < length (data l)" by simp
  then have ne: "\<not> atEOF l" by (simp add: atEOF_def)
  show ?case
  proof (cases "matchesAt (End b) (data l) (pos l)")
    case True
    with ne show ?thesis by (subst mLoop_unfold) simp
  next
    case False
    with less.prems have "pos l \<noteq> p" by auto
    with less.prems have le: "pos l + 1 \<le> p" by simp
    let ?l = "l\<lparr>pos := pos l + 1\<rparr>"
    have "length (data ?l) - pos ?l < length (data l) - pos l" using lt by simp
    from less.hyps[OF this, of lines' start' for lines' start'] le less.prems
    have "\<exists>ls l'. mLoop b ?l lines' start' = Inr (ls, True, l')" for lines' start' by simp
    with False ne show ?thesis by (subst mLoop_unfold) auto
  qed
qed

lemma sLine_unfold:
  "sLine b l start =
     (if atEOF l then Inl IndexOutOfRange
      else if atEOF (l\<lparr>pos := pos l + 1\<rparr>)
      then Inr (slice (data l) start (pos l + 1), True, l\<lparr>pos := pos l + 1\<rparr>)
      else if data l ! pos l = nl
      then Inr (filterSymbols (slice (data l) start (pos l + 1)) (Escape b), False,
                l\<lparr>pos := pos l + 1\<rparr>)
      else sLine b (l\<lparr>pos := pos l + 1\<rparr>) start)"
  by (subst sLine.simps) (simp add: byteAt_def atEOF_def Let_def)


lemma matchesAt_le: "matchesAt tok xs p \<Longrightarrow> p \<le> length xs \<Longrightarrow> p + length tok \<le> length xs"
proof -
  assume a: "matchesAt tok xs p" "p \<le> length xs"
  then have "length (take (length tok) (drop p xs)) = length tok" by (simp add: matchesAt_def)
  then show ?thesis using a(2) by simp
qed

lemma skipSpace_props: "data (skipSpace l) = data l \<and> pos l \<le> pos (skipSpace l) \<and>
  (pos l \<le> length (data l) \<longrightarrow> pos (skipSpace l) \<le> length (data l))"
proof -
  have "length (takeWhile (\<lambda>c. isSpace c \<and> c \<noteq> nl) (drop (pos l) (data l))) \<le> length (drop (pos l) (data l))"
    by (rule length_takeWhile_le)
  then show ?thesis by (auto simp: skipSpace_def)
qed


lemma endSComments_atEOF: "atEOF l \<Longrightarrow> endSComments b l = Inl IndexOutOfRange"
  by (simp add: endSComments_def sLoop.simps[of b l] sLine_unfold)



text \<open>
  When \<^verbatim>\<open>endSComments\<close> returns, it returns true, at least one line and the same buffer.
\<close>

lemma sLoop_success:
  "sLoop b l acc = Inr (ls, l1) \<Longrightarrow> ls \<noteq> [] \<and> data l1 = data l \<and> pos l < pos l1"
proof (induction "length (data l) - pos l" arbitrary: l acc rule: less_induct)
  case less
  show ?case
  proof (cases "sLine b l (pos l)")
    case (Inl e)
    with less.prems show ?thesis by (subst (asm) sLoop.simps) simp
  next
    case (Inr r)
    obtain ln brk l0 where r: "r = (ln, brk, l0)" by (cases r) auto
    from sLine_adv Inr r have adv: "data l0 = data l" "pos l < pos l0" "pos l0 \<le> length (data l)"
      by blast+
    let ?s = "skipSpace l0"
    from skipSpace_props[of l0] adv
    have sp: "data ?s = data l" "pos l0 \<le> pos ?s" "pos ?s \<le> length (data l)"
      by auto
    show ?thesis
    proof (cases "brk \<or> \<not> fst (match ?s (Begin b))")
      case True
      with less.prems Inr r adv sp show ?thesis
        by (subst (asm) sLoop.simps) (auto simp: match_def split: if_splits prod.splits bool.splits)
    next
      case False
      let ?l2 = "snd (match ?s (Begin b))"
      from False less.prems Inr r have rec: "sLoop b ?l2 (acc @ [ln]) = Inr (ls, l1)"
        by (subst (asm) sLoop.simps) (auto split: if_splits prod.splits bool.splits)
      from False have ma: "matchesAt (Begin b) (data l) (pos ?s)"
        and l2: "?l2 = ?s\<lparr>pos := pos ?s + length (Begin b)\<rparr>"
        using sp by (auto simp: match_def split: if_splits)
      from matchesAt_le[OF ma sp(3)] have le: "pos ?s + length (Begin b) \<le> length (data l)" .
      have d2: "data ?l2 = data l" "pos ?l2 = pos ?s + length (Begin b)" using l2 sp by simp_all
      have "length (data ?l2) - pos ?l2 < length (data l) - pos l" using d2 adv sp le by simp
      from less.hyps[OF this rec] d2 adv sp show ?thesis by simp
    qed
  qed
qed

lemma endSComments_success:
  "endSComments b l = Inr (ls, ok, l1) \<Longrightarrow> ok \<and> ls \<noteq> [] \<and> data l1 = data l \<and> pos l \<le> pos l1"
  using sLoop_success[of b l "[]"]
  by (auto simp: endSComments_def split: sum.splits prod.splits)

subsection \<open>filterSymbols\<close>

lemma filterLoop_eq:
  "filterLoop line cs xs =
     (case dropWhile (\<lambda>c. isSpace c \<and> c \<noteq> nl) xs of
        [] \<Rightarrow> line
      | m # t \<Rightarrow>
          if m \<in> set cs \<and> t \<noteq> [] \<and> isSpace (hd t)
          then (if hd t = nl then [nl] else t)
          else line)"
  by (induction xs) auto

text \<open>
  C1, as amended. With an empty charset the line comes back unchanged. With a charset that
  is not empty, let \<open>m\<close> be the first character of the line that is a newline or not white
  space. The line is changed only when \<open>m\<close> is in the charset and the character right
  after \<open>m\<close> is white space: when that character is a newline the result is the newline
  alone, otherwise the result is the line from that white space character on, so that
  \<open>m\<close> and all that stands before it are dropped and the white space after \<open>m\<close> is kept.
  In every other case (no such \<open>m\<close>, \<open>m\<close> outside the charset, \<open>m\<close> last in the line or
  followed by a character that is not white space) the line comes back unchanged.
\<close>

theorem filterSymbols_behaviour:
  "filterSymbols line cs =
     (if cs = [] then line
      else case dropWhile (\<lambda>c. isSpace c \<and> c \<noteq> nl) line of
        [] \<Rightarrow> line
      | m # t \<Rightarrow>
          if m \<in> set cs \<and> t \<noteq> [] \<and> isSpace (hd t)
          then (if hd t = nl then [nl] else t)
          else line)"
  by (simp add: filterSymbols_def filterLoop_eq)

theorem filterSymbols_behaviour_witness:
  "filterSymbols ''  * abc'' ''*'' = '' abc'' \<and> filterSymbols ''  *abc'' ''*'' = ''  *abc''
   \<and> filterSymbols [CHR '' '', CHR ''*'', nl] ''*'' = [nl]"
  using filterSymbols_behaviour[of "''  * abc''" "''*''"]
    filterSymbols_behaviour[of "''  *abc''" "''*''"]
    filterSymbols_behaviour[of "[CHR '' '', CHR ''*'', nl]" "''*''"]
  by (simp add: isSpace_def nl_def)

text \<open>
  C1 as stated fails. The marker \<^verbatim>\<open>*\<close> is the first character of \<^verbatim>\<open>*abc\<close> and is in the
  charset, yet it is not dropped; in \<^verbatim>\<open>* abc\<close> the space after the marker is not dropped;
  and from the line with three leading spaces four characters are removed, the white space
  before the marker with it.
\<close>

theorem filterSymbols_counterexample:
  "filterSymbols ''*abc'' ''*'' = ''*abc'' \<and> filterSymbols ''* abc'' ''*'' = '' abc''
   \<and> filterSymbols ''   * abc'' ''*'' = '' abc''"
  by (simp add: filterSymbols_def isSpace_def nl_def)

subsection \<open>Strings and multi-line comments\<close>

lemma blockType_distinct:
  "blockTypeString \<noteq> blockTypeMComment" "blockTypeString \<noteq> blockTypeSComment"
  "blockTypeMComment \<noteq> blockTypeSComment"
  "blockTypeMComment \<noteq> blockTypeString" "blockTypeSComment \<noteq> blockTypeString"
  "blockTypeSComment \<noteq> blockTypeMComment"
  by (simp_all add: blockTypeString_def blockTypeMComment_def blockTypeSComment_def)

lemma escaped_quote:
  "EndFunc \<lparr>Type = blockTypeString, Begin = [CHR 0x22], End = [CHR 0x22], Escape = [CHR 0x5C]\<rparr>
     \<lparr>data = [CHR 0x5C, CHR 0x22, CHR ''b'', CHR 0x22], pos = 0\<rparr> =
   Inr ([], True, \<lparr>data = [CHR 0x5C, CHR 0x22, CHR ''b'', CHR 0x22], pos = 4\<rparr>)"
  by code_simp

lemma scans_examples:
  "scans \<lparr>Type = blockTypeString, Begin = [CHR 0x22], End = [CHR 0x22], Escape = [CHR 0x5C]\<rparr>
     [CHR ''a'', CHR ''b'', CHR 0x22] 0 2"
  "scans \<lparr>Type = blockTypeString, Begin = [CHR 0x22], End = [CHR 0x22], Escape = [CHR 0x5C]\<rparr>
     [CHR 0x5C, CHR 0x22, CHR ''b'', CHR 0x22] 0 3"
  "scans \<lparr>Type = blockTypeString, Begin = [CHR 0x22], End = [CHR 0x22], Escape = [CHR 0x5C]\<rparr>
     [CHR ''a'', CHR 0x5C, CHR 0x22] 0 3"
proof -
  let ?S = "\<lparr>Type = blockTypeString, Begin = [CHR 0x22], End = [CHR 0x22], Escape = [CHR 0x5C]\<rparr>"
  have "scans ?S [CHR ''a'', CHR ''b'', CHR 0x22] (0 + 1 + 1) 2"
    by (simp add: numeral_2_eq_2 scans.here)
  then have "scans ?S [CHR ''a'', CHR ''b'', CHR 0x22] (0 + 1) 2"
    by (rule scans.ordinary[rotated 3]) (simp_all add: matchesAt_def)
  then show "scans ?S [CHR ''a'', CHR ''b'', CHR 0x22] 0 2"
    by (rule scans.ordinary[rotated 3]) (simp_all add: matchesAt_def)
  have "scans ?S [CHR 0x5C, CHR 0x22, CHR ''b'', CHR 0x22] (0 + length (Escape ?S) + 1 + 1) 3"
    by (simp add: numeral_3_eq_3 scans.here)
  then have "scans ?S [CHR 0x5C, CHR 0x22, CHR ''b'', CHR 0x22] (0 + length (Escape ?S) + 1) 3"
    by (rule scans.ordinary[rotated 3]) (simp_all add: matchesAt_def)
  then show "scans ?S [CHR 0x5C, CHR 0x22, CHR ''b'', CHR 0x22] 0 3"
    by (rule scans.escaped[rotated 3]) (simp_all add: matchesAt_def)
  have "scans ?S [CHR ''a'', CHR 0x5C, CHR 0x22] (0 + 1 + length (Escape ?S) + 1) 3"
    by (simp add: numeral_3_eq_3 scans.here)
  then have "scans ?S [CHR ''a'', CHR 0x5C, CHR 0x22] (0 + 1) 3"
    by (rule scans.escaped[rotated 3]) (simp_all add: matchesAt_def)
  then show "scans ?S [CHR ''a'', CHR 0x5C, CHR 0x22] 0 3"
    by (rule scans.ordinary[rotated 3]) (simp_all add: matchesAt_def)
qed

text \<open>
  C7. For a String rule and for a MultiLineComment rule: when the End token occurs nowhere
  from the cursor to the end of the buffer, \<^verbatim>\<open>EndFunc\<close> returns \<^verbatim>\<open>(nil, false)\<close>; whenever
  it returns false it returns no line, whatever it had gathered, and the cursor is at the
  end of the buffer. A String rule that returns true returns no line either, and has its
  cursor right behind an occurrence of the End token. Each turn of the loop of a string is
  stated: at the end of the buffer the result is \<^verbatim>\<open>(nil, false)\<close>; a match of the Escape
  token moves the cursor over the token and over the byte that follows, and the scan goes
  on from there; where the Escape token does not match and the End token does, the string
  ends with success, no line, and the cursor behind the token; at any other byte the
  cursor moves on by one. Taken together: a String rule returns \<^verbatim>\<open>(nil, false)\<close> when its
  scan reaches the end of the buffer, also when all it met of the End token was escaped,
  and \<^verbatim>\<open>(nil, true)\<close> when its scan reaches an End token, and the scan always reaches one
  of the two. A MultiLineComment rule returns true exactly when the End token occurs
  between the cursor and the end of the buffer.
\<close>

theorem EndFunc_unterminated:
  "((Type b = blockTypeString \<or> Type b = blockTypeMComment) \<and>
      (\<forall>p. pos l \<le> p \<and> p < length (data l) \<longrightarrow> \<not> matchesAt (End b) (data l) p)
      \<longrightarrow> (\<exists>l'. EndFunc b l = Inr ([], False, l'))) \<and>
   ((Type b = blockTypeString \<or> Type b = blockTypeMComment) \<and> EndFunc b l = Inr (ls, False, l1)
      \<longrightarrow> ls = [] \<and> atEOF l1 \<and> data l1 = data l) \<and>
   (Type b = blockTypeString \<and> EndFunc b l = Inr (ls, True, l1)
      \<longrightarrow> ls = [] \<and> pos l + length (End b) \<le> pos l1 \<and>
          matchesAt (End b) (data l) (pos l1 - length (End b))) \<and>
   (\<not> atEOF l \<and> Escape b \<noteq> [] \<and> matchesAt (Escape b) (data l) (pos l)
      \<longrightarrow> endString b l = endString b (l\<lparr>pos := pos l + length (Escape b) + 1\<rparr>)) \<and>
   (\<not> atEOF l \<and> \<not> (Escape b \<noteq> [] \<and> matchesAt (Escape b) (data l) (pos l)) \<and>
      matchesAt (End b) (data l) (pos l)
      \<longrightarrow> endString b l = ([], True, l\<lparr>pos := pos l + length (End b)\<rparr>)) \<and>
   (\<not> atEOF l \<and> \<not> (Escape b \<noteq> [] \<and> matchesAt (Escape b) (data l) (pos l)) \<and>
      \<not> matchesAt (End b) (data l) (pos l)
      \<longrightarrow> endString b l = endString b (l\<lparr>pos := pos l + 1\<rparr>)) \<and>
   (atEOF l \<longrightarrow> endString b l = ([], False, l)) \<and>
   (Type b = blockTypeString \<and> scans b (data l) (pos l) q \<and> length (data l) \<le> q
      \<longrightarrow> EndFunc b l = Inr ([], False, l\<lparr>pos := q\<rparr>)) \<and>
   (Type b = blockTypeString \<and> scans b (data l) (pos l) q \<and> q < length (data l) \<and>
      \<not> (Escape b \<noteq> [] \<and> matchesAt (Escape b) (data l) q) \<and> matchesAt (End b) (data l) q
      \<longrightarrow> EndFunc b l = Inr ([], True, l\<lparr>pos := q + length (End b)\<rparr>)) \<and>
   (\<exists>q'. scans b (data l) (pos l) q' \<and>
      (length (data l) \<le> q' \<or>
       (\<not> (Escape b \<noteq> [] \<and> matchesAt (Escape b) (data l) q') \<and> matchesAt (End b) (data l) q'))) \<and>
   (Type b = blockTypeMComment \<longrightarrow>
      ((\<exists>ls' l'. EndFunc b l = Inr (ls', True, l')) \<longleftrightarrow>
       (\<exists>p. pos l \<le> p \<and> p < length (data l) \<and> matchesAt (End b) (data l) p)))"
proof (intro conjI impI)
  assume a: "(Type b = blockTypeString \<or> Type b = blockTypeMComment) \<and>
      (\<forall>p. pos l \<le> p \<and> p < length (data l) \<longrightarrow> \<not> matchesAt (End b) (data l) p)"
  then have no: "\<And>p. pos l \<le> p \<Longrightarrow> p < length (data l) \<Longrightarrow> \<not> matchesAt (End b) (data l) p"
    by simp
  from a have "Type b = blockTypeString \<or> Type b = blockTypeMComment" by simp
  then show "\<exists>l'. EndFunc b l = Inr ([], False, l')"
  proof
    assume "Type b = blockTypeString"
    with endString_no_End[of l b, OF no] show ?thesis by (simp add: EndFunc_def)
  next
    assume "Type b = blockTypeMComment"
    with mLoop_no_End[of l b "[]" "pos l", OF no] show ?thesis
      by (simp add: EndFunc_def endMComments_def blockType_distinct)
  qed
next
  assume a: "(Type b = blockTypeString \<or> Type b = blockTypeMComment) \<and> EndFunc b l = Inr (ls, False, l1)"
  then have "Type b = blockTypeString \<or> Type b = blockTypeMComment" by simp
  then have "ls = [] \<and> atEOF l1 \<and> data l1 = data l"
  proof
    assume "Type b = blockTypeString"
    with a have "endString b l = (ls, False, l1)" by (simp add: EndFunc_def)
    then show ?thesis using endString_result endString_False_atEOF by blast
  next
    assume "Type b = blockTypeMComment"
    with a have m: "mLoop b l [] (pos l) = Inr (ls, False, l1)"
      by (simp add: EndFunc_def endMComments_def blockType_distinct)
    from mLoop_result[OF m] mLoop_False_atEOF[OF m] show ?thesis by auto
  qed
  then show "ls = []" "atEOF l1" "data l1 = data l" by simp_all
next
  assume a: "Type b = blockTypeString \<and> EndFunc b l = Inr (ls, True, l1)"
  then have e: "endString b l = (ls, True, l1)" by (auto simp: EndFunc_def)
  from endString_result[OF e]
  show "ls = []" "pos l + length (End b) \<le> pos l1"
    "matchesAt (End b) (data l) (pos l1 - length (End b))" by simp_all
next
  assume "\<not> atEOF l \<and> Escape b \<noteq> [] \<and> matchesAt (Escape b) (data l) (pos l)"
  then show "endString b l = endString b (l\<lparr>pos := pos l + length (Escape b) + 1\<rparr>)"
    by (subst endString_unfold) simp
next
  assume "\<not> atEOF l \<and> \<not> (Escape b \<noteq> [] \<and> matchesAt (Escape b) (data l) (pos l)) \<and>
      matchesAt (End b) (data l) (pos l)"
  then show "endString b l = ([], True, l\<lparr>pos := pos l + length (End b)\<rparr>)"
    by (subst endString_unfold) auto
next
  assume "\<not> atEOF l \<and> \<not> (Escape b \<noteq> [] \<and> matchesAt (Escape b) (data l) (pos l)) \<and>
      \<not> matchesAt (End b) (data l) (pos l)"
  then show "endString b l = endString b (l\<lparr>pos := pos l + 1\<rparr>)"
    by (subst endString_unfold) auto
next
  assume "atEOF l"
  then show "endString b l = ([], False, l)" by (subst endString_unfold) simp
next
  assume a: "Type b = blockTypeString \<and> scans b (data l) (pos l) q \<and> length (data l) \<le> q"
  then have "endString b l = ([], False, l\<lparr>pos := q\<rparr>)" by (simp add: endString_at_EOF)
  with a show "EndFunc b l = Inr ([], False, l\<lparr>pos := q\<rparr>)" by (simp add: EndFunc_def)
next
  assume a: "Type b = blockTypeString \<and> scans b (data l) (pos l) q \<and> q < length (data l) \<and>
      \<not> (Escape b \<noteq> [] \<and> matchesAt (Escape b) (data l) q) \<and> matchesAt (End b) (data l) q"
  then have "endString b l = ([], True, l\<lparr>pos := q + length (End b)\<rparr>)"
    using endString_at_End[of b l q] by blast
  with a show "EndFunc b l = Inr ([], True, l\<lparr>pos := q + length (End b)\<rparr>)"
    by (simp add: EndFunc_def)
next
  show "\<exists>q'. scans b (data l) (pos l) q' \<and>
      (length (data l) \<le> q' \<or>
       (\<not> (Escape b \<noteq> [] \<and> matchesAt (Escape b) (data l) q') \<and> matchesAt (End b) (data l) q'))"
    by (rule scans_total)
next
  assume t: "Type b = blockTypeMComment"
  then have ef: "EndFunc b l = mLoop b l [] (pos l)"
    by (simp add: EndFunc_def endMComments_def blockType_distinct)
  show "(\<exists>ls' l'. EndFunc b l = Inr (ls', True, l')) \<longleftrightarrow>
       (\<exists>p. pos l \<le> p \<and> p < length (data l) \<and> matchesAt (End b) (data l) p)"
  proof
    assume "\<exists>ls' l'. EndFunc b l = Inr (ls', True, l')"
    then obtain ls' l' where r: "mLoop b l [] (pos l) = Inr (ls', True, l')" using ef by auto
    show "\<exists>p. pos l \<le> p \<and> p < length (data l) \<and> matchesAt (End b) (data l) p"
    proof (rule ccontr)
      assume "\<not> (\<exists>p. pos l \<le> p \<and> p < length (data l) \<and> matchesAt (End b) (data l) p)"
      then have "\<And>p. pos l \<le> p \<Longrightarrow> p < length (data l) \<Longrightarrow> \<not> matchesAt (End b) (data l) p" by blast
      from mLoop_no_End[of l b "[]" "pos l", OF this] r show False by simp
    qed
  next
    assume "\<exists>p. pos l \<le> p \<and> p < length (data l) \<and> matchesAt (End b) (data l) p"
    then obtain p where "pos l \<le> p" "p < length (data l)" "matchesAt (End b) (data l) p" by blast
    from mLoop_found[OF this, of "[]" "pos l"] ef
    show "\<exists>ls' l'. EndFunc b l = Inr (ls', True, l')" by simp
  qed
qed

theorem EndFunc_unterminated_witness:
  "EndFunc \<lparr>Type = blockTypeString, Begin = [CHR 0x22], End = [CHR 0x22], Escape = [CHR 0x5C]\<rparr>
     \<lparr>data = [CHR ''a'', CHR ''b'', CHR 0x22], pos = 0\<rparr> =
     Inr ([], True, \<lparr>data = [CHR ''a'', CHR ''b'', CHR 0x22], pos = 3\<rparr>) \<and>
   EndFunc \<lparr>Type = blockTypeString, Begin = [CHR 0x22], End = [CHR 0x22], Escape = [CHR 0x5C]\<rparr>
     \<lparr>data = [CHR 0x5C, CHR 0x22, CHR ''b'', CHR 0x22], pos = 0\<rparr> =
     Inr ([], True, \<lparr>data = [CHR 0x5C, CHR 0x22, CHR ''b'', CHR 0x22], pos = 4\<rparr>) \<and>
   EndFunc \<lparr>Type = blockTypeString, Begin = [CHR 0x22], End = [CHR 0x22], Escape = [CHR 0x5C]\<rparr>
     \<lparr>data = [CHR ''a'', CHR 0x5C, CHR 0x22], pos = 0\<rparr> =
     Inr ([], False, \<lparr>data = [CHR ''a'', CHR 0x5C, CHR 0x22], pos = 3\<rparr>) \<and>
   endString \<lparr>Type = blockTypeString, Begin = [CHR 0x22], End = [CHR 0x22], Escape = [CHR 0x5C]\<rparr>
     \<lparr>data = [CHR ''a'', CHR ''b'', CHR 0x22], pos = 0\<rparr> =
   endString \<lparr>Type = blockTypeString, Begin = [CHR 0x22], End = [CHR 0x22], Escape = [CHR 0x5C]\<rparr>
     \<lparr>data = [CHR ''a'', CHR ''b'', CHR 0x22], pos = 1\<rparr> \<and>
   (\<exists>ls' l'. EndFunc \<lparr>Type = blockTypeMComment, Begin = ''/*'', End = ''*/'', Escape = ''*''\<rparr>
            \<lparr>data = ''a*/b'', pos = 0\<rparr> = Inr (ls', True, l')) \<and>
   matchesAt [CHR 0x22] [CHR 0x5C, CHR 0x22, CHR ''b'', CHR 0x22] 3 \<and>
   endString \<lparr>Type = blockTypeString, Begin = [CHR 0x22], End = [CHR 0x22], Escape = [CHR 0x5C]\<rparr>
     \<lparr>data = [CHR 0x22, CHR ''x''], pos = 0\<rparr> = ([], True, \<lparr>data = [CHR 0x22, CHR ''x''], pos = 1\<rparr>) \<and>
   (\<exists>l'. EndFunc \<lparr>Type = blockTypeString, Begin = [CHR 0x22], End = [CHR 0x22], Escape = [CHR 0x5C]\<rparr>
            \<lparr>data = ''abc'', pos = 0\<rparr> = Inr ([], False, l')) \<and>
   (\<exists>l'. EndFunc \<lparr>Type = blockTypeMComment, Begin = ''/*'', End = ''*/'', Escape = ''*''\<rparr>
            \<lparr>data = ''a*b'', pos = 0\<rparr> = Inr ([], False, l')) \<and>
   endString \<lparr>Type = blockTypeString, Begin = [CHR 0x22], End = [CHR 0x22], Escape = [CHR 0x5C]\<rparr>
     \<lparr>data = [CHR 0x5C, CHR 0x22, CHR ''b'', CHR 0x22], pos = 0\<rparr> =
   endString \<lparr>Type = blockTypeString, Begin = [CHR 0x22], End = [CHR 0x22], Escape = [CHR 0x5C]\<rparr>
     \<lparr>data = [CHR 0x5C, CHR 0x22, CHR ''b'', CHR 0x22], pos = 2\<rparr>"
proof -
  let ?S = "\<lparr>Type = blockTypeString, Begin = [CHR 0x22], End = [CHR 0x22], Escape = [CHR 0x5C]\<rparr>"
  let ?M = "\<lparr>Type = blockTypeMComment, Begin = ''/*'', End = ''*/'', Escape = ''*''\<rparr>"
  let ?d = "[CHR 0x5C, CHR 0x22, CHR ''b'', CHR 0x22]"
  let ?ab = "[CHR ''a'', CHR ''b'', CHR 0x22]"
  let ?ae = "[CHR ''a'', CHR 0x5C, CHR 0x22]"
  have "EndFunc ?S \<lparr>data = ?ab, pos = 0\<rparr> = Inr ([], True, \<lparr>data = ?ab, pos = 0\<rparr>\<lparr>pos := 2 + length (End ?S)\<rparr>)"
    by (rule EndFunc_unterminated[where b = ?S and l = "\<lparr>data = ?ab, pos = 0\<rparr>" and q = 2,
          THEN conjunct2, THEN conjunct2, THEN conjunct2, THEN conjunct2, THEN conjunct2, THEN conjunct2, THEN conjunct2, THEN conjunct2, THEN conjunct1, THEN mp])
       (simp add: matchesAt_def scans_examples)
  then have 1: "EndFunc ?S \<lparr>data = ?ab, pos = 0\<rparr> = Inr ([], True, \<lparr>data = ?ab, pos = 3\<rparr>)"
    by simp
  have "EndFunc ?S \<lparr>data = ?d, pos = 0\<rparr> = Inr ([], True, \<lparr>data = ?d, pos = 0\<rparr>\<lparr>pos := 3 + length (End ?S)\<rparr>)"
    by (rule EndFunc_unterminated[where b = ?S and l = "\<lparr>data = ?d, pos = 0\<rparr>" and q = 3,
          THEN conjunct2, THEN conjunct2, THEN conjunct2, THEN conjunct2, THEN conjunct2, THEN conjunct2, THEN conjunct2, THEN conjunct2, THEN conjunct1, THEN mp])
       (simp add: matchesAt_def scans_examples)
  then have 2: "EndFunc ?S \<lparr>data = ?d, pos = 0\<rparr> = Inr ([], True, \<lparr>data = ?d, pos = 4\<rparr>)"
    by simp
  have "EndFunc ?S \<lparr>data = ?ae, pos = 0\<rparr> = Inr ([], False, \<lparr>data = ?ae, pos = 0\<rparr>\<lparr>pos := 3\<rparr>)"
    by (rule EndFunc_unterminated[where b = ?S and l = "\<lparr>data = ?ae, pos = 0\<rparr>" and q = 3,
          THEN conjunct2, THEN conjunct2, THEN conjunct2, THEN conjunct2, THEN conjunct2, THEN conjunct2, THEN conjunct2, THEN conjunct1, THEN mp])
       (simp add: scans_examples)
  then have 3: "EndFunc ?S \<lparr>data = ?ae, pos = 0\<rparr> = Inr ([], False, \<lparr>data = ?ae, pos = 3\<rparr>)"
    by simp
  have "endString ?S \<lparr>data = ?ab, pos = 0\<rparr> =
      endString ?S (\<lparr>data = ?ab, pos = 0\<rparr>\<lparr>pos := pos \<lparr>data = ?ab, pos = 0\<rparr> + 1\<rparr>)"
    by (rule EndFunc_unterminated[where b = ?S and l = "\<lparr>data = ?ab, pos = 0\<rparr>",
          THEN conjunct2, THEN conjunct2, THEN conjunct2, THEN conjunct2, THEN conjunct2, THEN conjunct1, THEN mp])
       (simp add: matchesAt_def atEOF_def)
  then have 4: "endString ?S \<lparr>data = ?ab, pos = 0\<rparr> = endString ?S \<lparr>data = ?ab, pos = 1\<rparr>"
    by simp
  have "\<exists>p. pos \<lparr>data = ''a*/b'', pos = 0\<rparr> \<le> p \<and> p < length (data \<lparr>data = ''a*/b'', pos = 0\<rparr>) \<and>
      matchesAt (End ?M) (data \<lparr>data = ''a*/b'', pos = 0\<rparr>) p"
    by (rule exI[of _ 1]) (simp add: matchesAt_def)
  then have 5: "\<exists>ls' l'. EndFunc ?M \<lparr>data = ''a*/b'', pos = 0\<rparr> = Inr (ls', True, l')"
    using EndFunc_unterminated[where b = ?M and l = "\<lparr>data = ''a*/b'', pos = 0\<rparr>",
          THEN conjunct2, THEN conjunct2, THEN conjunct2, THEN conjunct2, THEN conjunct2, THEN conjunct2, THEN conjunct2, THEN conjunct2, THEN conjunct2, THEN conjunct2, THEN mp]
    by simp
  have 6: "matchesAt [CHR 0x22] ?d 3"
    using EndFunc_unterminated[of ?S "\<lparr>data = ?d, pos = 0\<rparr>" "[]" "\<lparr>data = ?d, pos = 4\<rparr>",
        THEN conjunct2, THEN conjunct2, THEN conjunct1] escaped_quote
    by simp
  have 7: "endString ?S \<lparr>data = [CHR 0x22, CHR ''x''], pos = 0\<rparr> =
      ([], True, \<lparr>data = [CHR 0x22, CHR ''x''], pos = 1\<rparr>)"
    using EndFunc_unterminated[of ?S "\<lparr>data = [CHR 0x22, CHR ''x''], pos = 0\<rparr>",
        THEN conjunct2, THEN conjunct2, THEN conjunct2, THEN conjunct2, THEN conjunct1]
    by (simp add: matchesAt_def atEOF_def)
  have 8: "\<exists>l'. EndFunc ?S \<lparr>data = ''abc'', pos = 0\<rparr> = Inr ([], False, l')"
    by (rule EndFunc_unterminated[of ?S "\<lparr>data = ''abc'', pos = 0\<rparr>", THEN conjunct1, THEN mp])
       (auto simp: matchesAt_def less_Suc_eq)
  have 9: "\<exists>l'. EndFunc ?M \<lparr>data = ''a*b'', pos = 0\<rparr> = Inr ([], False, l')"
    by (rule EndFunc_unterminated[of ?M "\<lparr>data = ''a*b'', pos = 0\<rparr>", THEN conjunct1, THEN mp])
       (auto simp: matchesAt_def less_Suc_eq)
  have 10: "endString ?S \<lparr>data = ?d, pos = 0\<rparr> = endString ?S \<lparr>data = ?d, pos = 2\<rparr>"
    using EndFunc_unterminated[of ?S "\<lparr>data = ?d, pos = 0\<rparr>",
        THEN conjunct2, THEN conjunct2, THEN conjunct2, THEN conjunct1]
    by (simp add: matchesAt_def atEOF_def numeral_2_eq_2)
  from 1 2 3 4 5 6 7 8 9 10 show ?thesis by (intro conjI)
qed

subsection \<open>Single-line comments\<close>

lemma EndFunc_SComment: "Type b = blockTypeSComment \<Longrightarrow> EndFunc b l = endSComments b l"
  by (simp add: EndFunc_def blockType_distinct)




lemma final_line:
  "endSComments \<lparr>Type = blockTypeSComment, Begin = ''//'', End = [], Escape = ''*''\<rparr>
     \<lparr>data = ''//* a'', pos = 2\<rparr> = Inr ([''* a''], True, \<lparr>data = ''//* a'', pos = 4\<rparr>)"
  by code_simp

text \<open>
  C2 fails on a comment token at the end of the buffer. The buffer is \<^verbatim>\<open>//\<close>: \<^verbatim>\<open>BeginFunc\<close> matches at offset 0 and
  \<^verbatim>\<open>EndFunc\<close> then panics instead of returning true. Further, a final line that reaches the
  end of the buffer is appended as it is, not filtered (the filter would drop the marker
  \<^verbatim>\<open>*\<close> of \<^verbatim>\<open>* a\<close>), and the byte handed back to the lexer is then the last byte of the
  comment, not a newline.
\<close>

theorem EndFunc_SComment_at_end_of_buffer:
  "BeginFunc \<lparr>Type = blockTypeSComment, Begin = ''//'', End = [], Escape = []\<rparr>
       \<lparr>data = ''//'', pos = 0\<rparr> = (True, \<lparr>data = ''//'', pos = 2\<rparr>) \<and>
   EndFunc \<lparr>Type = blockTypeSComment, Begin = ''//'', End = [], Escape = []\<rparr>
       \<lparr>data = ''//'', pos = 2\<rparr> = Inl IndexOutOfRange \<and>
   EndFunc \<lparr>Type = blockTypeSComment, Begin = ''//'', End = [], Escape = ''*''\<rparr>
       \<lparr>data = ''//* a'', pos = 2\<rparr> = Inr ([''* a''], True, \<lparr>data = ''//* a'', pos = 4\<rparr>) \<and>
   filterSymbols ''* a'' ''*'' = '' a''"
  by (simp add: BeginFunc_def match_def matchesAt_def EndFunc_SComment endSComments_atEOF
      atEOF_def final_line filterSymbols_def isSpace_def nl_def)

section \<open>Properties of package input\<close>

lemma parseBlock_unrecognised:
  "\<not> HasPrefix (Data blk) apidocBegin \<Longrightarrow> \<not> HasPrefix (Data blk) apiBegin \<Longrightarrow>
   parseBlock FromXML NewAPI_FromXML d blk h =
     (d, h @ [(Erro, WithError (File blk) [] (Line blk) None)])"
  by (simp add: parseBlock_def Handler_Error_def)

text \<open>
  C3 fails on an unrelated comment. The block \<^verbatim>\<open>hello\<close> begins with neither marker. The document
  is unchanged, but the handler receives a call of \<^verbatim>\<open>h.Error\<close>, whose error wraps the nil
  error: the call at the end of \<^verbatim>\<open>parseBlock\<close> is not guarded by \<^verbatim>\<open>err != nil\<close>.
\<close>

theorem parseBlock_reports_unrecognised_block:
  "\<not> HasPrefix ''hello'' apidocBegin \<and> \<not> HasPrefix ''hello'' apiBegin \<and>
   parseBlock FromXML NewAPI_FromXML d \<lparr>File = ''a.go'', Line = 1, Data = ''hello''\<rparr> [] =
     (d, [(Erro, WithError ''a.go'' [] 1 None)])"
  by (simp add: parseBlock_unrecognised HasPrefix_def apidocBegin_def apiBegin_def)

lemma checkOpts_None_iff:
  "checkOpts Sanitize opt n = None \<longleftrightarrow> (\<forall>item \<in> set opt. \<exists>x. item = Some x \<and> Sanitize x = None)"
  by (induction opt arbitrary: n) (auto simp: Let_def split: option.splits)

text \<open>
  C8. When the options are empty, hold a nil option or hold an option whose
  \<^verbatim>\<open>Sanitize\<close> returns an error, \<^verbatim>\<open>buildBlock\<close> and \<^verbatim>\<open>Parse\<close> return an error and the run
  time has been asked for nothing: no channel is made and no goroutine is started. When
  there is an option and every option is set and passes \<^verbatim>\<open>Sanitize\<close>, the channel is
  made, the scan is started and \<^verbatim>\<open>Parse\<close> goes on.
\<close>

theorem Parse_gate:
  "((opt = [] \<or> None \<in> set opt \<or> (\<exists>x. Some x \<in> set opt \<and> Sanitize x \<noteq> None))
      \<longrightarrow> (\<exists>err. Parse Sanitize pipeline opt evs = (Inl err, evs) \<and>
                  buildBlock Sanitize opt evs = (Inl err, evs))) \<and>
   (opt \<noteq> [] \<and> (\<forall>item \<in> set opt. \<exists>x. item = Some x \<and> Sanitize x = None)
      \<longrightarrow> buildBlock Sanitize opt evs = (Inr opt, evs @ [MakeChan 500, GoScan opt]) \<and>
          Parse Sanitize pipeline opt evs = (Inr (pipeline opt), evs @ [MakeChan 500, GoScan opt]))"
proof (intro conjI impI)
  assume a: "opt = [] \<or> None \<in> set opt \<or> (\<exists>x. Some x \<in> set opt \<and> Sanitize x \<noteq> None)"
  show "\<exists>err. Parse Sanitize pipeline opt evs = (Inl err, evs) \<and>
                  buildBlock Sanitize opt evs = (Inl err, evs)"
  proof (cases "opt = []")
    case True
    then show ?thesis by (simp add: Parse_def buildBlock_def)
  next
    case False
    with a have "\<not> (\<forall>item \<in> set opt. \<exists>x. item = Some x \<and> Sanitize x = None)" by auto
    then have "checkOpts Sanitize opt 0 \<noteq> None" by (simp add: checkOpts_None_iff)
    then obtain err where "checkOpts Sanitize opt 0 = Some err" by auto
    with False show ?thesis by (simp add: Parse_def buildBlock_def)
  qed
next
  assume a: "opt \<noteq> [] \<and> (\<forall>item \<in> set opt. \<exists>x. item = Some x \<and> Sanitize x = None)"
  then have c: "checkOpts Sanitize opt 0 = None" by (simp add: checkOpts_None_iff)
  with a show "buildBlock Sanitize opt evs = (Inr opt, evs @ [MakeChan 500, GoScan opt])"
    by (simp add: buildBlock_def)
  with a show "Parse Sanitize pipeline opt evs = (Inr (pipeline opt), evs @ [MakeChan 500, GoScan opt])"
    by (simp add: Parse_def)
qed

theorem Parse_gate_witness:
  "(\<exists>err. Parse (\<lambda>n::nat. if n < 5 then None else Some (NewError [] ''paths'' 0 ErrRequired))
            (\<lambda>opt. length opt) [] [] = (Inl err, [])) \<and>
   (\<exists>err. Parse (\<lambda>n::nat. if n < 5 then None else Some (NewError [] ''paths'' 0 ErrRequired))
            (\<lambda>opt. length opt) [Some 1, None] [] = (Inl err, [])) \<and>
   (\<exists>err. Parse (\<lambda>n::nat. if n < 5 then None else Some (NewError [] ''paths'' 0 ErrRequired))
            (\<lambda>opt. length opt) [Some 1, Some 7] [] = (Inl err, [])) \<and>
   Parse (\<lambda>n::nat. if n < 5 then None else Some (NewError [] ''paths'' 0 ErrRequired))
            (\<lambda>opt. length opt) [Some 1, Some 2] [] =
     (Inr 2, [MakeChan 500, GoScan [Some 1, Some 2]])"
  using Parse_gate[of "[]" "\<lambda>n::nat. if n < 5 then None else Some (NewError [] ''paths'' 0 ErrRequired)"
      "\<lambda>opt. length opt" "[]"]
    Parse_gate[of "[Some 1, None]" "\<lambda>n::nat. if n < 5 then None else Some (NewError [] ''paths'' 0 ErrRequired)"
      "\<lambda>opt. length opt" "[]"]
    Parse_gate[of "[Some 1, Some 7]" "\<lambda>n::nat. if n < 5 then None else Some (NewError [] ''paths'' 0 ErrRequired)"
      "\<lambda>opt. length opt" "[]"]
    Parse_gate[of "[Some 1, Some 2]" "\<lambda>n::nat. if n < 5 then None else Some (NewError [] ''paths'' 0 ErrRequired)"
      "\<lambda>opt. length opt" "[]"]
  by auto

section \<open>Properties of package doc\<close>

text \<open>
  C5. After a successful decoding \<^verbatim>\<open>Callback.UnmarshalXML\<close> returns nil exactly when
  \<^verbatim>\<open>Method\<close> is not empty, the upper-cased \<^verbatim>\<open>Schema\<close> is \<^verbatim>\<open>HTTP\<close> or \<^verbatim>\<open>HTTPS\<close> and there
  is a Request; the Responses play no part. An empty \<^verbatim>\<open>Method\<close> gives the error at
  \<^verbatim>\<open>#method\<close>, else another schema gives the error at \<^verbatim>\<open>#schema\<close>, else an empty list of
  Requests gives the error at \<^verbatim>\<open>/request\<close>.
\<close>

theorem Callback_UnmarshalXML_rejects:
  "(fst (Callback_UnmarshalXML ToUpper local (shadow, None :: 'e option)) = None \<longleftrightarrow>
      Method shadow \<noteq> [] \<and>
      (ToUpper (Schema shadow) = ''HTTP'' \<or> ToUpper (Schema shadow) = ''HTTPS'') \<and>
      Requests shadow \<noteq> []) \<and>
   (Method shadow = [] \<longrightarrow>
      fst (Callback_UnmarshalXML ToUpper local (shadow, None)) =
        Some (newSyntaxError (''/'' @ local @ ''#method'') ErrRequired)) \<and>
   (Method shadow \<noteq> [] \<and> ToUpper (Schema shadow) \<noteq> ''HTTP'' \<and> ToUpper (Schema shadow) \<noteq> ''HTTPS'' \<longrightarrow>
      fst (Callback_UnmarshalXML ToUpper local (shadow, None)) =
        Some (newSyntaxError (''/'' @ local @ ''#schema'') ErrInvalidValue)) \<and>
   (Method shadow \<noteq> [] \<and> (ToUpper (Schema shadow) = ''HTTP'' \<or> ToUpper (Schema shadow) = ''HTTPS'') \<and>
      Requests shadow = [] \<longrightarrow>
      fst (Callback_UnmarshalXML ToUpper local (shadow, None)) =
        Some (newSyntaxError (''/'' @ local @ ''/request'') ErrRequired))"
  by (auto simp: Callback_UnmarshalXML_def Let_def SchemaHTTP_def SchemaHTTPS_def)

theorem Callback_UnmarshalXML_rejects_witness:
  "fst (Callback_UnmarshalXML ToUpper_ascii ''Callback''
     (\<lparr>Schema = ''hTtPs'', Callback_Summary = [], Callback_Description = [], Method = ''GET'',
       Queries = [], Callback_Deprecated = [], Callback_Reference = [], Responses = [],
       Requests = [\<lparr>Request_Type = String, Request_Deprecated = [], Request_Enums = [],
         Request_Array = False, Request_Items = [], Request_Reference = [], Request_Summary = [],
         Status = 200, Mimetype = ''json'', Examples = [], Headers = [],
         Request_Description = []\<rparr>]\<rparr>, None :: unit option)) =
     None \<and>
   fst (Callback_UnmarshalXML ToUpper_ascii ''Callback''
     (\<lparr>Schema = ''https'', Callback_Summary = [], Callback_Description = [], Method = [],
       Queries = [], Callback_Deprecated = [], Callback_Reference = [], Responses = [],
       Requests = []\<rparr>, None :: unit option)) =
     Some (newSyntaxError ''/Callback#method'' ErrRequired) \<and>
   fst (Callback_UnmarshalXML ToUpper_ascii ''Callback''
     (\<lparr>Schema = ''ftp'', Callback_Summary = [], Callback_Description = [], Method = ''GET'',
       Queries = [], Callback_Deprecated = [], Callback_Reference = [], Responses = [],
       Requests = []\<rparr>, None :: unit option)) =
     Some (newSyntaxError ''/Callback#schema'' ErrInvalidValue) \<and>
   fst (Callback_UnmarshalXML ToUpper_ascii ''Callback''
     (\<lparr>Schema = ''http'', Callback_Summary = [], Callback_Description = [], Method = ''GET'',
       Queries = [], Callback_Deprecated = [], Callback_Reference = [], Responses = [],
       Requests = []\<rparr>, None :: unit option)) =
     Some (newSyntaxError ''/Callback/request'' ErrRequired)"
  using
    Callback_UnmarshalXML_rejects[where 'e = unit, of ToUpper_ascii "''Callback''"
      "\<lparr>Schema = ''hTtPs'', Callback_Summary = [], Callback_Description = [], Method = ''GET'',
       Queries = [], Callback_Deprecated = [], Callback_Reference = [], Responses = [],
       Requests = [\<lparr>Request_Type = String, Request_Deprecated = [], Request_Enums = [],
         Request_Array = False, Request_Items = [], Request_Reference = [], Request_Summary = [],
         Status = 200, Mimetype = ''json'', Examples = [], Headers = [],
         Request_Description = []\<rparr>]\<rparr>"]
    Callback_UnmarshalXML_rejects[where 'e = unit, of ToUpper_ascii "''Callback''"
      "\<lparr>Schema = ''https'', Callback_Summary = [], Callback_Description = [], Method = [],
       Queries = [], Callback_Deprecated = [], Callback_Reference = [], Responses = [],
       Requests = []\<rparr>"]
    Callback_UnmarshalXML_rejects[where 'e = unit, of ToUpper_ascii "''Callback''"
      "\<lparr>Schema = ''ftp'', Callback_Summary = [], Callback_Description = [], Method = ''GET'',
       Queries = [], Callback_Deprecated = [], Callback_Reference = [], Responses = [],
       Requests = []\<rparr>"]
    Callback_UnmarshalXML_rejects[where 'e = unit, of ToUpper_ascii "''Callback''"
      "\<lparr>Schema = ''http'', Callback_Summary = [], Callback_Description = [], Method = ''GET'',
       Queries = [], Callback_Deprecated = [], Callback_Reference = [], Responses = [],
       Requests = []\<rparr>"]
  by (auto simp: ToUpper_ascii_def upperByte_def)


lemma getDuplicate_distinct: "distinct xs \<Longrightarrow> getDuplicate xs = []"
  by (induction xs) auto

lemma getDuplicate_found: "\<not> distinct xs \<Longrightarrow> [] \<notin> set xs \<Longrightarrow> getDuplicate xs \<noteq> []"
  by (induction xs) auto

text \<open>
  C6, as amended. Take a decoded Request that passes the checks which come first (the type
  is set, an Object has an Item, the mimetype is not empty) and in which no enum value and
  no item name is empty. If an enum value occurs twice the result is the error
  \<^verbatim>\<open>ErrDuplicateValue\<close> at \<^verbatim>\<open>/enum\<close> of the element; if the enum values are distinct and an
  item name occurs twice it is that error at \<^verbatim>\<open>/item\<close>; if both are distinct the Request
  is accepted and stored. Whatever the earlier checks say, a Request with distinct enum
  values and distinct item names never gets the error \<^verbatim>\<open>ErrDuplicateValue\<close>.
\<close>

theorem Request_UnmarshalXML_duplicates:
  "(Request_Type shadow \<noteq> None_Type \<and> (Request_Type shadow = Object \<longrightarrow> Request_Items shadow \<noteq> []) \<and>
    Mimetype shadow \<noteq> [] \<and> [] \<notin> set (map Value (Request_Enums shadow)) \<and>
    [] \<notin> set (map Name (Request_Items shadow)) \<longrightarrow>
      (\<not> distinct (map Value (Request_Enums shadow)) \<longrightarrow>
         Request_UnmarshalXML r local (shadow, None :: 'e option) =
           (Some (newSyntaxError (''/'' @ local @ ''/enum'') ErrDuplicateValue), r)) \<and>
      (distinct (map Value (Request_Enums shadow)) \<and> \<not> distinct (map Name (Request_Items shadow)) \<longrightarrow>
         Request_UnmarshalXML r local (shadow, None :: 'e option) =
           (Some (newSyntaxError (''/'' @ local @ ''/item'') ErrDuplicateValue), r)) \<and>
      (distinct (map Value (Request_Enums shadow)) \<and> distinct (map Name (Request_Items shadow)) \<longrightarrow>
         Request_UnmarshalXML r local (shadow, None :: 'e option) = (None, shadow))) \<and>
   (distinct (map Value (Request_Enums shadow)) \<and> distinct (map Name (Request_Items shadow)) \<longrightarrow>
      fst (Request_UnmarshalXML r local (shadow, derr :: 'e option)) \<noteq>
        Some (newSyntaxError field ErrDuplicateValue))"
  by (auto simp: Request_UnmarshalXML_def Let_def getDuplicateEnum_def getDuplicateItems_def
      getDuplicate_distinct getDuplicate_found split: option.splits)

theorem Request_UnmarshalXML_duplicates_witness:
  "Request_UnmarshalXML (sample_Request String [] []) ''request''
     (sample_Request String [\<lparr>Value = ''a''\<rparr>, \<lparr>Value = ''b''\<rparr>, \<lparr>Value = ''a''\<rparr>] [],
      None :: unit option) =
     (Some (newSyntaxError ''/request/enum'' ErrDuplicateValue), sample_Request String [] []) \<and>
   Request_UnmarshalXML (sample_Request String [] []) ''request''
     (sample_Request Object [\<lparr>Value = ''a''\<rparr>]
        [Param ''id'' Number False [] [], Param ''id'' String False [] []],
      None :: unit option) =
     (Some (newSyntaxError ''/request/item'' ErrDuplicateValue), sample_Request String [] []) \<and>
   Request_UnmarshalXML (sample_Request String [] []) ''request''
     (sample_Request Object [\<lparr>Value = ''a''\<rparr>, \<lparr>Value = ''b''\<rparr>]
        [Param ''id'' Number False [] [], Param ''name'' String False [] []],
      None :: unit option) =
     (None, sample_Request Object [\<lparr>Value = ''a''\<rparr>, \<lparr>Value = ''b''\<rparr>]
        [Param ''id'' Number False [] [], Param ''name'' String False [] []])"
  using
    Request_UnmarshalXML_duplicates[where 'e = unit, of
      "sample_Request String [\<lparr>Value = ''a''\<rparr>, \<lparr>Value = ''b''\<rparr>, \<lparr>Value = ''a''\<rparr>] []"
      "sample_Request String [] []" "''request''"]
    Request_UnmarshalXML_duplicates[where 'e = unit, of
      "sample_Request Object [\<lparr>Value = ''a''\<rparr>]
        [Param ''id'' Number False [] [], Param ''id'' String False [] []]"
      "sample_Request String [] []" "''request''"]
    Request_UnmarshalXML_duplicates[where 'e = unit, of
      "sample_Request Object [\<lparr>Value = ''a''\<rparr>, \<lparr>Value = ''b''\<rparr>]
        [Param ''id'' Number False [] [], Param ''name'' String False [] []]"
      "sample_Request String [] []" "''request''"]
  by (auto simp: sample_Request_def)

text \<open>
  C6 as stated fails. A Request without a type and with the enum value \<^verbatim>\<open>a\<close> twice is
  rejected at \<^verbatim>\<open>#type\<close>, which is neither the enum nor an item: the check of the type
  comes first. And two enums with the empty value are accepted, since the caller reads
  the empty string as "no duplicate".
\<close>

theorem Request_UnmarshalXML_duplicates_counterexample:
  "Request_UnmarshalXML (sample_Request String [] []) ''request''
     (sample_Request None_Type [\<lparr>Value = ''a''\<rparr>, \<lparr>Value = ''a''\<rparr>] [], None :: unit option) =
     (Some (newSyntaxError ''/request#type'' ErrRequired), sample_Request String [] []) \<and>
   Request_UnmarshalXML (sample_Request String [] []) ''request''
     (sample_Request String [\<lparr>Value = []\<rparr>, \<lparr>Value = []\<rparr>] [], None :: unit option) =
     (None, sample_Request String [\<lparr>Value = []\<rparr>, \<lparr>Value = []\<rparr>] [])"
  by (simp add: Request_UnmarshalXML_def sample_Request_def getDuplicateEnum_def
      getDuplicateItems_def)

section \<open>Properties of package mock\<close>

subsection \<open>The path lookup\<close>

text \<open>The lookup as modelled passes the test of the source files.\<close>

lemma TestJSONValidator_find_passes: "TestJSONValidator_find"
  by (simp add: TestJSONValidator_find_def root_Param_def group_Param_def tags_Param_def
      item_def hasType_def)

lemma item_None_iff: "item p name = None \<longleftrightarrow> name \<notin> set (map Name (Param_Items p))"
  by (auto simp: item_def find_None_iff)

lemma find_Param_append:
  "find_Param p (names @ rest) =
     (case find_Param p names of None \<Rightarrow> None | Some q \<Rightarrow> find_Param q rest)"
  by (induction names arbitrary: p) (auto split: option.splits)

text \<open>
  C4, as amended. The path of no segment yields the root. A segment that names no Item of
  the Param reached so far, the empty segment included, makes the whole lookup "not found",
  at the first segment and after any resolved prefix; a lookup that fails for a prefix fails
  for the whole path. A segment that names an Item goes on from that Item. For a path that
  is not empty only the Items of a Param count: its type and its Array flag play no part, so
  that the lookup passes through arrays and through objects of any depth.
\<close>

theorem find_Param_lookup:
  "find_Param p [] = Some p \<and>
   (name \<notin> set (map Name (Param_Items p)) \<longrightarrow> find_Param p (name # names) = None) \<and>
   (item p name = Some i \<longrightarrow> find_Param p (name # names) = find_Param i names) \<and>
   (find_Param p names = None \<longrightarrow> find_Param p (names @ rest) = None) \<and>
   (find_Param p names = Some q \<and> name \<notin> set (map Name (Param_Items q))
      \<longrightarrow> find_Param p (names @ name # rest) = None) \<and>
   (names \<noteq> [] \<longrightarrow>
      find_Param (Param n t a items enums) names = find_Param (Param n' t' a' items enums') names)"
proof (intro conjI impI)
  show "find_Param p [] = Some p" by simp
next
  assume "name \<notin> set (map Name (Param_Items p))"
  then have "item p name = None" by (simp add: item_None_iff)
  then show "find_Param p (name # names) = None" by simp
next
  assume "item p name = Some i" then show "find_Param p (name # names) = find_Param i names" by simp
next
  assume "find_Param p names = None" then show "find_Param p (names @ rest) = None"
    by (simp add: find_Param_append)
next
  assume a: "find_Param p names = Some q \<and> name \<notin> set (map Name (Param_Items q))"
  then have "item q name = None" by (simp add: item_None_iff)
  with a show "find_Param p (names @ name # rest) = None" by (simp add: find_Param_append)
next
  assume "names \<noteq> []"
  then show "find_Param (Param n t a items enums) names = find_Param (Param n' t' a' items enums') names"
    by (cases names) (simp_all add: item_def)
qed

theorem find_Param_lookup_witness:
  "find_Param root_Param [] = Some root_Param \<and>
   find_Param root_Param [''not-exists'', ''id''] = None \<and>
   find_Param root_Param [''group'', ''tags'', ''id''] = find_Param tags_Param [''id''] \<and>
   find_Param root_Param ([''group'', ''tags''] @ [''title'']) = None"
  using find_Param_lookup[of root_Param "''not-exists''" "[''id'']"]
    find_Param_lookup[of root_Param "''group''" "[''tags'', ''id'']" group_Param]
    find_Param_lookup[of group_Param "''tags''" "[''id'']" tags_Param]
    find_Param_lookup[of root_Param "''title''" "[''group'', ''tags'']" _ "[]" tags_Param]
  by (simp add: root_Param_def group_Param_def tags_Param_def item_def)

text \<open>
  C4 as stated fails: on the tree of the test the path of the one empty segment is "not
  found", as the test itself asserts, and not the root.
\<close>

theorem find_Param_empty_segment_counterexample:
  "find_Param root_Param [[]] = None \<and> find_Param root_Param [[]] \<noteq> Some root_Param"
  by (simp add: root_Param_def group_Param_def tags_Param_def item_def)

subsection \<open>Validation of the synthesized value\<close>

lemma validate_elems_replicate:
  "validate p path v = None \<Longrightarrow> validate_elems p path (replicate n v) = None"
  by (induction n) simp_all

lemma item_distinct:
  "distinct (map Name (Param_Items p)) \<Longrightarrow> i \<in> set (Param_Items p) \<Longrightarrow> item p (Name i) = Some i"
proof -
  have "distinct (map Name xs) \<Longrightarrow> i \<in> set xs \<Longrightarrow> List.find (\<lambda>j. Name j = Name i) xs = Some i" for xs
    by (induction xs) (auto simp: rev_image_eqI)
  then show "distinct (map Name (Param_Items p)) \<Longrightarrow> i \<in> set (Param_Items p) \<Longrightarrow> item p (Name i) = Some i"
    by (simp add: item_def)
qed

lemma validate_fields_synthesize:
  "distinct (map Name (Param_Items p)) \<Longrightarrow> set js \<subseteq> set (Param_Items p) \<Longrightarrow>
   (\<And>i path. i \<in> set js \<Longrightarrow> validate i path (synthesize i) = None) \<Longrightarrow>
   validate_fields p path (map (\<lambda>i. (Name i, synthesize i)) js) = None"
  by (induction js) (simp_all add: item_distinct)

lemma scalar_roundtrip:
  assumes d: "distinct (map Name items)"
    and ih: "\<And>i path. i \<in> set items \<Longrightarrow> validate i path (synthesize i) = None"
  shows "validate (Param name t False items enums) path (synthesize (Param name t False items enums)) = None"
proof (cases t)
  case Object
  have "validate_fields (Param name t False items enums) path
          (map (\<lambda>i. (Name i, synthesize i)) items) = None"
    by (rule validate_fields_synthesize) (use d ih in simp_all)
  with Object show ?thesis by (simp add: validate.simps(1))
qed (simp_all add: validate.simps(1))

text \<open>
  C9. For every well-formed Param tree, whatever the nesting of Objects and arrays, the
  validation of the value synthesized from the tree against that tree reports no error.
\<close>

theorem validate_synthesize_roundtrip: "wf_Param p \<Longrightarrow> validate p path (synthesize p) = None"
proof (induction p arbitrary: path)
  case (Param name t a items enums)
  from Param.prems have d: "distinct (map Name items)" and w: "list_all wf_Param items" by simp_all
  have ih: "validate i path' (synthesize i) = None" if "i \<in> set items" for i path'
    using Param.IH(1)[OF that] w that by (simp add: list_all_iff)
  note sc = scalar_roundtrip[OF d ih, of name t enums path]
  show ?case
  proof (cases a)
    case False
    with sc show ?thesis by simp
  next
    case True
    have "synthesize (Param name t True items enums) =
            JArray (replicate 5 (synthesize (Param name t False items enums)))"
      by (simp add: Let_def)
    with True sc show ?thesis
      by (simp add: validate.simps(1)[of "Param name t True items enums"] validate_elems_replicate Let_def)
  qed
qed

theorem validate_synthesize_roundtrip_witness:
  "wf_Param root_Param \<and> validate root_Param [] (synthesize root_Param) = None"
  using validate_synthesize_roundtrip[of root_Param "[]"]
  by (simp add: root_Param_def group_Param_def tags_Param_def)

text \<open>
  The synthesized value of the test tree is the value that \<^verbatim>\<open>TestBuildJSON\<close> expects, and
  the scenario of the spec: \<^verbatim>\<open>{"id": 1024}\<close> is synthesized, \<^verbatim>\<open>{"id": "x"}\<close> is a type
  mismatch at \<^verbatim>\<open>id\<close>.
\<close>

lemma synthesize_test_data:
  "synthesize root_Param =
     JObject [(''name'', JString ''1024''), (''id'', JNumber 1024),
       (''group'', JObject [(''name'', JString ''1024''), (''id'', JNumber 1024),
          (''tags'', JArray (replicate 5 (JObject [(''name'', JString ''1024''), (''id'', JNumber 1024)])))])]"
  by (simp add: root_Param_def group_Param_def tags_Param_def)

lemma validate_scenario:
  "synthesize (Param [] Object False [Param ''id'' Number False [] []] []) = JObject [(''id'', JNumber 1024)]"
  "validate (Param [] Object False [Param ''id'' Number False [] []] []) [] (JObject [(''id'', JString ''x'')])
     = Some (TypeMismatch [''id''])"
  by (simp_all add: validate.simps(1) item_def)

end
